theory Spec2Isabelle
  imports Complex_Main "HOL-Library.Word"
begin

unbundle bit_operations_syntax

section \<open>ParagraphBuilder: the styled text tree builder\<close>

text \<open>
  A shallow embedding of \<^verbatim>\<open>sky/engine/core/text/ParagraphBuilder.cpp\<close>.
  The render tree is a store of render objects addressed by natural numbers (the
  pointers of the C++ code), the builder is a record of its member variables, and every
  way the C++ can stop (a failed \<^verbatim>\<open>DCHECK\<close>, a null pointer dereference, a read past the
  end of the encoded list) is a value of the type \<open>error\<close>.
\<close>

subsection \<open>Machine integers, errors\<close>

type_synonym int32 = "32 word"

datatype error = DCheckFailure | NullPointerDereference | IndexOutOfBounds

definition andThen :: "error + 'a \<Rightarrow> ('a \<Rightarrow> error + 'b) \<Rightarrow> error + 'b" where
  "andThen r f = (case r of Inl e \<Rightarrow> Inl e | Inr v \<Rightarrow> f v)"

text \<open>\<^verbatim>\<open>encoded[i]\<close> on a \<^verbatim>\<open>tonic::Int32List\<close>: a read past the end is an error.\<close>

definition rd :: "int32 list \<Rightarrow> nat \<Rightarrow> error + int32" where
  "rd encoded i = (if i < length encoded then Inr (encoded ! i) else Inl IndexOutOfBounds)"

subsection \<open>Colors\<close>

text \<open>
  The class \<^verbatim>\<open>Color\<close> is declared outside the files at hand; a color is the four
  channel values its constructor \<^verbatim>\<open>Color(r, g, b, a)\<close> receives.
\<close>

record Color =
  red :: int
  green :: int
  blue :: int
  alpha :: int

definition Color_rgba :: "int \<Rightarrow> int \<Rightarrow> int \<Rightarrow> int \<Rightarrow> Color" where
  "Color_rgba r g b a = \<lparr>red = r, green = g, blue = b, alpha = a\<rparr>"

text \<open>
  \<^verbatim>\<open>getColorFromARGB(int argb)\<close>. The masks \<^verbatim>\<open>0x00FF0000\<close>, \<^verbatim>\<open>0x0000FF00\<close> and
  \<^verbatim>\<open>0x000000FF\<close> are of type \<^verbatim>\<open>int\<close>, so these three conjunctions are signed and
  shifted arithmetically; \<^verbatim>\<open>0xFF000000\<close> does not fit \<^verbatim>\<open>int\<close> and is
  \<^verbatim>\<open>unsigned\<close>, so the fourth conjunction is unsigned, shifted logically, and then
  converted to the \<^verbatim>\<open>int\<close> parameter of the constructor.
\<close>

definition getColorFromARGB :: "int32 \<Rightarrow> Color" where
  "getColorFromARGB argb =
     Color_rgba (sint (signed_drop_bit 16 (argb AND 0x00FF0000)))
                (sint (signed_drop_bit 8 (argb AND 0x0000FF00)))
                (sint (signed_drop_bit 0 (argb AND 0x000000FF)))
                (sint (drop_bit 24 (argb AND 0xFF000000)))"

text \<open>
  The packing the specification speaks of (written from its words, not from the code):
  alpha in bits 31..24, red in 23..16, green in 15..8, blue in 7..0.
\<close>

definition packARGB :: "Color \<Rightarrow> int32" where
  "packARGB c =
     push_bit 24 (word_of_int (alpha c)) OR push_bit 16 (word_of_int (red c)) OR
     push_bit 8 (word_of_int (green c)) OR word_of_int (blue c)"

subsection \<open>Styles\<close>

text \<open>
  The style classes (\<^verbatim>\<open>RenderStyle\<close>, \<^verbatim>\<open>FontDescription\<close>, \<^verbatim>\<open>Length\<close>, \<^verbatim>\<open>StyleColor\<close>
  and the enumerations) are declared outside the files at hand. They are records of the
  fields the builder reads and writes, and a setter is the update of its field. An
  enumeration value obtained by \<^verbatim>\<open>static_cast\<close> from an encoded integer is kept as that
  integer. A \<^verbatim>\<open>double\<close> or a \<^verbatim>\<open>float\<close> is the real number it stands for. The
  conversion of a \<^verbatim>\<open>double\<close> to \<^verbatim>\<open>float\<close> (at every setter with a \<^verbatim>\<open>float\<close> parameter)
  and the rounding of a \<^verbatim>\<open>double\<close> product are the parameters \<open>float_of\<close> and
  \<open>double_of\<close> of the model.
\<close>

datatype FontOrientation = Horizontal | Vertical

datatype NonCJKGlyphOrientation = NonCJKGlyphOrientationVerticalRight | NonCJKGlyphOrientationUpright

record FontDescription =
  fd_script :: nat
  fd_specifiedSize :: real
  fd_computedSize :: real
  fd_isAbsoluteSize :: bool
  fd_orientation :: FontOrientation
  fd_nonCJKGlyphOrientation :: NonCJKGlyphOrientation
  fd_weight :: int32
  fd_style :: int32
  fd_family :: string
  fd_letterSpacing :: real
  fd_wordSpacing :: real

definition setScript :: "nat \<Rightarrow> FontDescription \<Rightarrow> FontDescription" where
  "setScript v fd = fd\<lparr>fd_script := v\<rparr>"

definition setSpecifiedSize :: "real \<Rightarrow> FontDescription \<Rightarrow> FontDescription" where
  "setSpecifiedSize v fd = fd\<lparr>fd_specifiedSize := v\<rparr>"

definition setComputedSize :: "real \<Rightarrow> FontDescription \<Rightarrow> FontDescription" where
  "setComputedSize v fd = fd\<lparr>fd_computedSize := v\<rparr>"

definition setIsAbsoluteSize :: "bool \<Rightarrow> FontDescription \<Rightarrow> FontDescription" where
  "setIsAbsoluteSize v fd = fd\<lparr>fd_isAbsoluteSize := v\<rparr>"

definition setOrientation :: "FontOrientation \<Rightarrow> FontDescription \<Rightarrow> FontDescription" where
  "setOrientation v fd = fd\<lparr>fd_orientation := v\<rparr>"

definition setNonCJKGlyphOrientation ::
  "NonCJKGlyphOrientation \<Rightarrow> FontDescription \<Rightarrow> FontDescription" where
  "setNonCJKGlyphOrientation v fd = fd\<lparr>fd_nonCJKGlyphOrientation := v\<rparr>"

definition setWeight :: "int32 \<Rightarrow> FontDescription \<Rightarrow> FontDescription" where
  "setWeight v fd = fd\<lparr>fd_weight := v\<rparr>"

definition FontDescription_setStyle :: "int32 \<Rightarrow> FontDescription \<Rightarrow> FontDescription" where
  "FontDescription_setStyle v fd = fd\<lparr>fd_style := v\<rparr>"

definition setFamily :: "string \<Rightarrow> FontDescription \<Rightarrow> FontDescription" where
  "setFamily v fd = fd\<lparr>fd_family := v\<rparr>"

definition setLetterSpacing :: "real \<Rightarrow> FontDescription \<Rightarrow> FontDescription" where
  "setLetterSpacing v fd = fd\<lparr>fd_letterSpacing := v\<rparr>"

definition setWordSpacing :: "real \<Rightarrow> FontDescription \<Rightarrow> FontDescription" where
  "setWordSpacing v fd = fd\<lparr>fd_wordSpacing := v\<rparr>"

datatype StyleColor = StyleColor Color | CurrentColor

datatype LengthType = Auto | Percent | Fixed

record Length =
  len_value :: real
  len_type :: LengthType

definition Length_of :: "real \<Rightarrow> LengthType \<Rightarrow> Length" where
  "Length_of v t = \<lparr>len_value = v, len_type = t\<rparr>"

datatype EDisplay = INLINE | BLOCK | PARAGRAPH | NONE

datatype Order = LogicalOrder | VisualOrder

datatype EUserModify = READ_ONLY | READ_WRITE | READ_WRITE_PLAINTEXT_ONLY

record RenderStyle =
  color :: Color
  textDecoration :: int32
  appliedTextDecorations :: "(int32 \<times> int32 \<times> StyleColor) list"
  textDecorationColor :: StyleColor
  textDecorationStyle :: int32
  fontDescription :: FontDescription
  lineHeight :: Length
  textAlign :: int32
  display :: EDisplay
  rtlOrdering :: Order
  zIndex :: int
  userModify :: EUserModify
  style_locale :: string

definition setColor :: "Color \<Rightarrow> RenderStyle \<Rightarrow> RenderStyle" where
  "setColor v s = s\<lparr>color := v\<rparr>"

definition setTextDecoration :: "int32 \<Rightarrow> RenderStyle \<Rightarrow> RenderStyle" where
  "setTextDecoration v s = s\<lparr>textDecoration := v\<rparr>"

definition setTextDecorationColor :: "StyleColor \<Rightarrow> RenderStyle \<Rightarrow> RenderStyle" where
  "setTextDecorationColor v s = s\<lparr>textDecorationColor := v\<rparr>"

definition setTextDecorationStyle :: "int32 \<Rightarrow> RenderStyle \<Rightarrow> RenderStyle" where
  "setTextDecorationStyle v s = s\<lparr>textDecorationStyle := v\<rparr>"

definition setFontDescription :: "FontDescription \<Rightarrow> RenderStyle \<Rightarrow> RenderStyle" where
  "setFontDescription v s = s\<lparr>fontDescription := v\<rparr>"

definition setLineHeight :: "Length \<Rightarrow> RenderStyle \<Rightarrow> RenderStyle" where
  "setLineHeight v s = s\<lparr>lineHeight := v\<rparr>"

definition setTextAlign :: "int32 \<Rightarrow> RenderStyle \<Rightarrow> RenderStyle" where
  "setTextAlign v s = s\<lparr>textAlign := v\<rparr>"

definition setDisplay :: "EDisplay \<Rightarrow> RenderStyle \<Rightarrow> RenderStyle" where
  "setDisplay v s = s\<lparr>display := v\<rparr>"

definition setRTLOrdering :: "Order \<Rightarrow> RenderStyle \<Rightarrow> RenderStyle" where
  "setRTLOrdering v s = s\<lparr>rtlOrdering := v\<rparr>"

definition setZIndex :: "int \<Rightarrow> RenderStyle \<Rightarrow> RenderStyle" where
  "setZIndex v s = s\<lparr>zIndex := v\<rparr>"

definition setUserModify :: "EUserModify \<Rightarrow> RenderStyle \<Rightarrow> RenderStyle" where
  "setUserModify v s = s\<lparr>userModify := v\<rparr>"

text \<open>\<^verbatim>\<open>String::fromUTF8\<close>: a string is its bytes on both sides.\<close>

definition fromUTF8 :: "string \<Rightarrow> string" where
  "fromUTF8 s = s"

subsection \<open>The collaborators\<close>

text \<open>
  The functions the builder calls and that are implemented elsewhere are parameters of
  the model: whether \<^verbatim>\<open>DCHECK\<close> is compiled in, the style \<^verbatim>\<open>RenderStyle::create()\<close>
  returns, \<^verbatim>\<open>inheritFrom\<close> (the style that inherits, then the parent's),
  \<^verbatim>\<open>applyTextDecorations\<close>, the default \<^verbatim>\<open>FontDescription()\<close>, the locale to script
  table, the conversion of a \<^verbatim>\<open>double\<close> to the nearest \<^verbatim>\<open>float\<close> and the rounding of a real
  to the nearest \<^verbatim>\<open>double\<close>. Every theorem below holds for all of them.
\<close>

record externals =
  dcheck_is_on :: bool
  RenderStyle_create :: RenderStyle
  inheritFrom :: "RenderStyle \<Rightarrow> RenderStyle \<Rightarrow> RenderStyle"
  applyTextDecorations :: "RenderStyle \<Rightarrow> RenderStyle"
  FontDescription_new :: FontDescription
  localeToScriptCodeForFontSelection :: "string \<Rightarrow> nat"
  float_of :: "real \<Rightarrow> real"
  double_of :: "real \<Rightarrow> real"

text \<open>
  The calls that leave the builder: \<^verbatim>\<open>style->applyTextDecorations()\<close>,
  \<^verbatim>\<open>style->setFontDescription(...)\<close> and
  \<^verbatim>\<open>style->font().update(UIDartState::Current()->font_selector())\<close> are logged in the
  order they are made: \<^verbatim>\<open>setFontDescription\<close> with the description it is given, the font
  update with the description of the font it updates, the one the style has then.
\<close>

datatype call =
    ApplyTextDecorations
  | is_SetFontDescription: SetFontDescription FontDescription
  | is_FontUpdate: FontUpdate FontDescription

definition call_applyTextDecorations ::
  "externals \<Rightarrow> RenderStyle \<times> call list \<Rightarrow> RenderStyle \<times> call list" where
  "call_applyTextDecorations ext sl =
     (case sl of (s, lg) \<Rightarrow> (applyTextDecorations ext s, lg @ [ApplyTextDecorations]))"

definition call_setFontDescription ::
  "FontDescription \<Rightarrow> RenderStyle \<times> call list \<Rightarrow> RenderStyle \<times> call list" where
  "call_setFontDescription fd sl =
     (case sl of (s, lg) \<Rightarrow> (setFontDescription fd s, lg @ [SetFontDescription fd]))"

definition call_font_update :: "RenderStyle \<times> call list \<Rightarrow> RenderStyle \<times> call list" where
  "call_font_update sl = (case sl of (s, lg) \<Rightarrow> (s, lg @ [FontUpdate (fontDescription s)]))"

subsection \<open>The encoding\<close>

definition tsColorIndex :: nat where "tsColorIndex = 1"
definition tsTextDecorationIndex :: nat where "tsTextDecorationIndex = 2"
definition tsTextDecorationColorIndex :: nat where "tsTextDecorationColorIndex = 3"
definition tsTextDecorationStyleIndex :: nat where "tsTextDecorationStyleIndex = 4"
definition tsFontWeightIndex :: nat where "tsFontWeightIndex = 5"
definition tsFontStyleIndex :: nat where "tsFontStyleIndex = 6"
definition tsFontFamilyIndex :: nat where "tsFontFamilyIndex = 7"
definition tsFontSizeIndex :: nat where "tsFontSizeIndex = 8"
definition tsLetterSpacingIndex :: nat where "tsLetterSpacingIndex = 9"
definition tsWordSpacingIndex :: nat where "tsWordSpacingIndex = 10"
definition tsHeightIndex :: nat where "tsHeightIndex = 11"

definition tsColorMask :: int32 where "tsColorMask = push_bit tsColorIndex 1"
definition tsTextDecorationMask :: int32 where
  "tsTextDecorationMask = push_bit tsTextDecorationIndex 1"
definition tsTextDecorationColorMask :: int32 where
  "tsTextDecorationColorMask = push_bit tsTextDecorationColorIndex 1"
definition tsTextDecorationStyleMask :: int32 where
  "tsTextDecorationStyleMask = push_bit tsTextDecorationStyleIndex 1"
definition tsFontWeightMask :: int32 where "tsFontWeightMask = push_bit tsFontWeightIndex 1"
definition tsFontStyleMask :: int32 where "tsFontStyleMask = push_bit tsFontStyleIndex 1"
definition tsFontFamilyMask :: int32 where "tsFontFamilyMask = push_bit tsFontFamilyIndex 1"
definition tsFontSizeMask :: int32 where "tsFontSizeMask = push_bit tsFontSizeIndex 1"
definition tsLetterSpacingMask :: int32 where
  "tsLetterSpacingMask = push_bit tsLetterSpacingIndex 1"
definition tsWordSpacingMask :: int32 where "tsWordSpacingMask = push_bit tsWordSpacingIndex 1"
definition tsHeightMask :: int32 where "tsHeightMask = push_bit tsHeightIndex 1"

definition psTextAlignIndex :: nat where "psTextAlignIndex = 1"
definition psTextBaselineIndex :: nat where "psTextBaselineIndex = 2"
definition psFontWeightIndex :: nat where "psFontWeightIndex = 3"
definition psFontStyleIndex :: nat where "psFontStyleIndex = 4"
definition psFontFamilyIndex :: nat where "psFontFamilyIndex = 5"
definition psFontSizeIndex :: nat where "psFontSizeIndex = 6"
definition psLineHeightIndex :: nat where "psLineHeightIndex = 7"

definition psTextAlignMask :: int32 where "psTextAlignMask = push_bit psTextAlignIndex 1"
definition psTextBaselineMask :: int32 where
  "psTextBaselineMask = push_bit psTextBaselineIndex 1"
definition psFontWeightMask :: int32 where "psFontWeightMask = push_bit psFontWeightIndex 1"
definition psFontStyleMask :: int32 where "psFontStyleMask = push_bit psFontStyleIndex 1"
definition psFontFamilyMask :: int32 where "psFontFamilyMask = push_bit psFontFamilyIndex 1"
definition psFontSizeMask :: int32 where "psFontSizeMask = push_bit psFontSizeIndex 1"
definition psLineHeightMask :: int32 where "psLineHeightMask = push_bit psLineHeightIndex 1"

subsection \<open>The render tree\<close>

text \<open>
  A render object has a kind (a \<^verbatim>\<open>RenderText\<close> carries its text), a style, a parent
  pointer and its children in order. The store is a list: the address of an object is
  its position, and \<^verbatim>\<open>new\<close> appends.
\<close>

datatype RenderKind = RenderView | RenderParagraph | RenderInline | RenderText string

record RenderObject =
  kind :: RenderKind
  style :: RenderStyle
  parent :: "nat option"
  children :: "nat list"

definition newObject :: "RenderKind \<Rightarrow> RenderStyle \<Rightarrow> RenderObject" where
  "newObject k s = \<lparr>kind = k, style = s, parent = None, children = []\<rparr>"

text \<open>
  Modelled from the spec: \<^verbatim>\<open>RenderObject::addChild\<close> and \<^verbatim>\<open>RenderObject::parent\<close> are
  implemented outside the files at hand. The specification has the new node appended as
  the last child of the node it is added to, which becomes its parent.
\<close>

definition addChild :: "nat \<Rightarrow> nat \<Rightarrow> RenderObject list \<Rightarrow> RenderObject list" where
  "addChild p c h =
     (let h1 = h[c := (h ! c)\<lparr>parent := Some p\<rparr>]
      in h1[p := (h1 ! p)\<lparr>children := children (h1 ! p) @ [c]\<rparr>])"

definition RenderObject_setStyle :: "nat \<Rightarrow> RenderStyle \<Rightarrow> RenderObject list \<Rightarrow> RenderObject list" where
  "RenderObject_setStyle a s h = h[a := (h ! a)\<lparr>style := s\<rparr>]"

subsection \<open>The builder\<close>

record ParagraphBuilder =
  heap :: "RenderObject list"
  m_renderView :: "nat option"
  m_renderParagraph :: nat
  m_currentRenderObject :: "nat option"
  calls :: "call list"

definition createRenderParagraph :: "externals \<Rightarrow> RenderStyle \<Rightarrow> RenderObject" where
  "createRenderParagraph ext parentStyle =
     newObject RenderParagraph
       (setDisplay PARAGRAPH (inheritFrom ext (RenderStyle_create ext) parentStyle))"

text \<open>
  \<^verbatim>\<open>getComputedSizeFromSpecifiedSize(float specifiedSize)\<close>: its argument is a
  \<^verbatim>\<open>float\<close>, so a caller with a \<^verbatim>\<open>double\<close> passes \<open>float_of\<close> of it.
  \<^verbatim>\<open>std::numeric_limits<float>::epsilon()\<close> is \<open>2\<^sup>-\<^sup>2\<^sup>3\<close>.
\<close>

definition getComputedSizeFromSpecifiedSize :: "real \<Rightarrow> real" where
  "getComputedSizeFromSpecifiedSize specifiedSize =
     (if specifiedSize < 1 / 2 ^ 23 then 0 else specifiedSize)"

definition createFontForDocument ::
  "externals \<Rightarrow> RenderStyle \<times> call list \<Rightarrow> RenderStyle \<times> call list" where
  "createFontForDocument ext sl =
     (case sl of (s, lg) \<Rightarrow>
        let fontDescription =
              setNonCJKGlyphOrientation NonCJKGlyphOrientationVerticalRight
                (setOrientation Horizontal
                  (setComputedSize 14
                    (setSpecifiedSize 14
                      (setScript (localeToScriptCodeForFontSelection ext (style_locale s))
                        (FontDescription_new ext)))))
        in call_font_update (call_setFontDescription fontDescription (s, lg)))"

definition createRenderView :: "externals \<Rightarrow> RenderObject \<times> call list" where
  "createRenderView ext =
     (case createFontForDocument ext
             (setUserModify READ_ONLY
                (setZIndex 0 (setRTLOrdering LogicalOrder (RenderStyle_create ext))), [])
      of (s, lg) \<Rightarrow> (newObject RenderView s, lg))"

text \<open>The constructor: the view is allocated first, then the paragraph, its only child.\<close>

definition ParagraphBuilder_new :: "externals \<Rightarrow> ParagraphBuilder" where
  "ParagraphBuilder_new ext =
     (case createRenderView ext of (view, lg) \<Rightarrow>
        let h0 = [view];
            renderView = 0;
            renderParagraph = length h0;
            h1 = h0 @ [createRenderParagraph ext (style (h0 ! renderView))]
        in \<lparr>heap = addChild renderView renderParagraph h1,
            m_renderView = Some renderView,
            m_renderParagraph = renderParagraph,
            m_currentRenderObject = Some renderParagraph,
            calls = lg\<rparr>)"

text \<open>
  \<^verbatim>\<open>if (mask & bit) setter(static_cast<...>(encoded[index]))\<close>: the field is read only
  when its bit is set.
\<close>

definition ifBit ::
  "int32 \<Rightarrow> int32 \<Rightarrow> int32 list \<Rightarrow> nat \<Rightarrow> (int32 \<Rightarrow> 'a \<Rightarrow> 'a) \<Rightarrow> 'a \<Rightarrow> error + 'a" where
  "ifBit msk b encoded i setter x =
     (if msk AND b \<noteq> 0 then andThen (rd encoded i) (\<lambda>v. Inr (setter v x)) else Inr x)"

definition ts_textDecoration ::
  "externals \<Rightarrow> int32 \<Rightarrow> int32 list \<Rightarrow> RenderStyle \<times> call list \<Rightarrow> error + RenderStyle \<times> call list" where
  "ts_textDecoration ext msk encoded sl =
     (case sl of (s, lg) \<Rightarrow>
        if msk AND tsTextDecorationMask \<noteq> 0
        then andThen (rd encoded tsTextDecorationIndex)
               (\<lambda>v. Inr (call_applyTextDecorations ext (setTextDecoration v s, lg)))
        else Inr (s, lg))"

definition tsFontMasks :: int32 where
  "tsFontMasks = tsFontWeightMask OR tsFontStyleMask OR tsFontFamilyMask OR
                 tsFontSizeMask OR tsLetterSpacingMask OR tsWordSpacingMask"

text \<open>
  The body of \<^verbatim>\<open>if (mask & tsFontSizeMask)\<close>, the same for \<^verbatim>\<open>psFontSizeMask\<close>; the
  \<^verbatim>\<open>double\<close> \<^verbatim>\<open>fontSize\<close> is converted for the \<^verbatim>\<open>float\<close> parameters.
\<close>

definition setSize :: "externals \<Rightarrow> real \<Rightarrow> FontDescription \<Rightarrow> FontDescription" where
  "setSize ext fontSize fd =
     setComputedSize (getComputedSizeFromSpecifiedSize (float_of ext fontSize))
       (setIsAbsoluteSize True (setSpecifiedSize (float_of ext fontSize) fd))"

definition ts_font ::
  "externals \<Rightarrow> int32 \<Rightarrow> int32 list \<Rightarrow> string \<Rightarrow> real \<Rightarrow> real \<Rightarrow> real
     \<Rightarrow> RenderStyle \<times> call list \<Rightarrow> error + RenderStyle \<times> call list" where
  "ts_font ext msk encoded fontFamily fontSize letterSpacing wordSpacing sl =
     (case sl of (s, lg) \<Rightarrow>
        if msk AND tsFontMasks \<noteq> 0
        then
          andThen (ifBit msk tsFontWeightMask encoded tsFontWeightIndex setWeight
                     (fontDescription s)) (\<lambda>fd1.
          andThen (ifBit msk tsFontStyleMask encoded tsFontStyleIndex FontDescription_setStyle
                     fd1) (\<lambda>fd2.
          let fd3 = (if msk AND tsFontFamilyMask \<noteq> 0
                     then setFamily (fromUTF8 fontFamily) fd2 else fd2);
              fd4 = (if msk AND tsFontSizeMask \<noteq> 0 then setSize ext fontSize fd3 else fd3);
              fd5 = (if msk AND tsLetterSpacingMask \<noteq> 0
                     then setLetterSpacing (float_of ext letterSpacing) fd4 else fd4);
              fd6 = (if msk AND tsWordSpacingMask \<noteq> 0
                     then setWordSpacing (float_of ext wordSpacing) fd5 else fd5)
          in Inr (call_font_update (call_setFontDescription fd6 (s, lg)))))
        else Inr (s, lg))"

text \<open>
  Lines 155 to 209 of \<^verbatim>\<open>pushStyle\<close>: the fields in the order of the source, on the
  style that inherits from the cursor's.
\<close>

definition pushStyle_resolve ::
  "externals \<Rightarrow> int32 \<Rightarrow> int32 list \<Rightarrow> string \<Rightarrow> real \<Rightarrow> real \<Rightarrow> real \<Rightarrow> real
     \<Rightarrow> RenderStyle \<times> call list \<Rightarrow> error + RenderStyle \<times> call list" where
  "pushStyle_resolve ext msk encoded fontFamily fontSize letterSpacing wordSpacing height sl =
     (case sl of (s0, lg) \<Rightarrow>
        andThen (ifBit msk tsColorMask encoded tsColorIndex
                   (\<lambda>v. setColor (getColorFromARGB v)) s0) (\<lambda>s1.
        andThen (ts_textDecoration ext msk encoded (s1, lg)) (\<lambda>sl2.
        andThen (ifBit msk tsTextDecorationColorMask encoded tsTextDecorationColorIndex
                   (\<lambda>v. setTextDecorationColor (StyleColor (getColorFromARGB v)))
                   (fst sl2)) (\<lambda>s3.
        andThen (ifBit msk tsTextDecorationStyleMask encoded tsTextDecorationStyleIndex
                   setTextDecorationStyle s3) (\<lambda>s4.
        andThen (ts_font ext msk encoded fontFamily fontSize letterSpacing wordSpacing
                   (s4, snd sl2)) (\<lambda>sl5.
        Inr (if msk AND tsHeightMask \<noteq> 0
             then setLineHeight (Length_of (float_of ext (double_of ext (height * 100))) Percent)
                    (fst sl5)
             else fst sl5,
             snd sl5)))))))"

text \<open>
  \<^verbatim>\<open>pushStyle\<close>: the \<^verbatim>\<open>DCHECK\<close> on the length, the dereference of the cursor for the
  style to inherit from, the mask, the fields, and the new \<^verbatim>\<open>RenderInline\<close> added under
  the cursor, which it becomes.
\<close>

definition pushStyle ::
  "externals \<Rightarrow> ParagraphBuilder \<Rightarrow> int32 list \<Rightarrow> string \<Rightarrow> real \<Rightarrow> real \<Rightarrow> real \<Rightarrow> real
     \<Rightarrow> error + ParagraphBuilder" where
  "pushStyle ext b encoded fontFamily fontSize letterSpacing wordSpacing height =
     (if dcheck_is_on ext \<and> length encoded \<noteq> 7 then Inl DCheckFailure
      else case m_currentRenderObject b of
        None \<Rightarrow> Inl NullPointerDereference
      | Some cur \<Rightarrow>
          andThen (rd encoded 0) (\<lambda>msk.
          andThen (pushStyle_resolve ext msk encoded fontFamily fontSize letterSpacing
                     wordSpacing height
                     (inheritFrom ext (RenderStyle_create ext) (style (heap b ! cur)), calls b))
            (\<lambda>sl.
               let span = length (heap b);
                   h1 = heap b @ [newObject RenderInline (fst sl)]
               in Inr (b\<lparr>heap := addChild cur span h1,
                         m_currentRenderObject := Some span,
                         calls := snd sl\<rparr>))))"

definition pop :: "ParagraphBuilder \<Rightarrow> ParagraphBuilder" where
  "pop b =
     (case m_currentRenderObject b of
        None \<Rightarrow> b
      | Some cur \<Rightarrow> b\<lparr>m_currentRenderObject := parent (heap b ! cur)\<rparr>)"

definition addText :: "externals \<Rightarrow> ParagraphBuilder \<Rightarrow> string \<Rightarrow> ParagraphBuilder" where
  "addText ext b txt =
     (case m_currentRenderObject b of
        None \<Rightarrow> b
      | Some cur \<Rightarrow>
          let renderText = length (heap b);
              s = inheritFrom ext (RenderStyle_create ext) (style (heap b ! cur));
              h1 = heap b @ [newObject (RenderText (fromUTF8 txt)) s]
          in b\<lparr>heap := addChild cur renderText h1\<rparr>)"

definition psFontMasks :: int32 where
  "psFontMasks = psFontWeightMask OR psFontStyleMask OR psFontFamilyMask OR psFontSizeMask"

definition ps_font ::
  "externals \<Rightarrow> int32 \<Rightarrow> int32 list \<Rightarrow> string \<Rightarrow> real \<Rightarrow> RenderStyle \<times> call list
     \<Rightarrow> error + RenderStyle \<times> call list" where
  "ps_font ext msk encoded fontFamily fontSize sl =
     (case sl of (s, lg) \<Rightarrow>
        if msk AND psFontMasks \<noteq> 0
        then
          andThen (ifBit msk psFontWeightMask encoded psFontWeightIndex setWeight
                     (fontDescription s)) (\<lambda>fd1.
          andThen (ifBit msk psFontStyleMask encoded psFontStyleIndex FontDescription_setStyle
                     fd1) (\<lambda>fd2.
          let fd3 = (if msk AND psFontFamilyMask \<noteq> 0
                     then setFamily (fromUTF8 fontFamily) fd2 else fd2);
              fd4 = (if msk AND psFontSizeMask \<noteq> 0 then setSize ext fontSize fd3 else fd3)
          in Inr (call_font_update (call_setFontDescription fd4 (s, lg)))))
        else Inr (s, lg))"

text \<open>
  Lines 242 to 282 of \<^verbatim>\<open>build\<close>, on the clone of the paragraph's style. The text
  baseline bit has an empty body.
\<close>

definition build_resolve ::
  "externals \<Rightarrow> int32 \<Rightarrow> int32 list \<Rightarrow> string \<Rightarrow> real \<Rightarrow> real \<Rightarrow> RenderStyle \<times> call list
     \<Rightarrow> error + RenderStyle \<times> call list" where
  "build_resolve ext msk encoded fontFamily fontSize lineHeight_arg sl =
     (case sl of (s0, lg) \<Rightarrow>
        andThen (ifBit msk psTextAlignMask encoded psTextAlignIndex setTextAlign s0) (\<lambda>s1.
        andThen (ps_font ext msk encoded fontFamily fontSize (s1, lg)) (\<lambda>sl2.
        Inr (if msk AND psLineHeightMask \<noteq> 0
             then setLineHeight
                    (Length_of (float_of ext (double_of ext (lineHeight_arg * 100))) Percent)
                    (fst sl2)
             else fst sl2,
             snd sl2))))"

text \<open>
  \<^verbatim>\<open>build\<close> returns the pointer released from \<^verbatim>\<open>m_renderView\<close> (the argument of
  \<^verbatim>\<open>Paragraph::create\<close>) and the builder it leaves behind.
\<close>

definition build ::
  "externals \<Rightarrow> ParagraphBuilder \<Rightarrow> int32 list \<Rightarrow> string \<Rightarrow> real \<Rightarrow> real
     \<Rightarrow> error + nat option \<times> ParagraphBuilder" where
  "build ext b encoded fontFamily fontSize lineHeight_arg =
     (if dcheck_is_on ext \<and> length encoded \<noteq> 5 then Inl DCheckFailure
      else
        andThen (rd encoded 0) (\<lambda>msk.
        andThen (if msk \<noteq> 0
                 then andThen (build_resolve ext msk encoded fontFamily fontSize lineHeight_arg
                                 (style (heap b ! m_renderParagraph b), calls b))
                        (\<lambda>sl. Inr (b\<lparr>heap := RenderObject_setStyle (m_renderParagraph b)
                                                 (fst sl) (heap b),
                                       calls := snd sl\<rparr>))
                 else Inr b) (\<lambda>b1.
        Inr (m_renderView b1, b1\<lparr>m_currentRenderObject := None, m_renderView := None\<rparr>))))"

subsection \<open>Call sequences, depth and well-formed builders\<close>

type_synonym pushStyleArgs = "int32 list \<times> string \<times> real \<times> real \<times> real \<times> real"

text \<open>A run of \<^verbatim>\<open>pushStyle\<close> calls stops at the first one that fails.\<close>

fun pushStyles :: "externals \<Rightarrow> pushStyleArgs list \<Rightarrow> ParagraphBuilder \<Rightarrow> error + ParagraphBuilder" where
  "pushStyles ext [] b = Inr b"
| "pushStyles ext ((encoded, fontFamily, fontSize, letterSpacing, wordSpacing, height) # as) b =
     andThen (pushStyle ext b encoded fontFamily fontSize letterSpacing wordSpacing height)
       (pushStyles ext as)"

fun pops :: "nat \<Rightarrow> ParagraphBuilder \<Rightarrow> ParagraphBuilder" where
  "pops 0 b = b"
| "pops (Suc k) b = pops k (pop b)"

text \<open>
  The number of parent links from the node \<open>i\<close> up to the node \<open>anc\<close>, following at most
  \<open>fuel\<close> links; \<open>None\<close> when \<open>anc\<close> is not met.
\<close>

fun depthBelow :: "nat \<Rightarrow> RenderObject list \<Rightarrow> nat \<Rightarrow> nat \<Rightarrow> nat option" where
  "depthBelow 0 h anc i = (if i = anc then Some 0 else None)"
| "depthBelow (Suc fuel) h anc i =
     (if i = anc then Some 0
      else case parent (h ! i) of
        None \<Rightarrow> None
      | Some p \<Rightarrow> map_option Suc (depthBelow fuel h anc p))"

text \<open>
  What the constructor establishes and every operation keeps: the view is at address 0
  and has no parent, every other object has a parent allocated before it, the paragraph
  is at address 1, a builder that has released its view has a null cursor, and a cursor
  that is not null points into the store.
\<close>

definition builder_inv :: "ParagraphBuilder \<Rightarrow> bool" where
  "builder_inv b \<longleftrightarrow>
     2 \<le> length (heap b) \<and>
     parent (heap b ! 0) = None \<and>
     (\<forall>i \<in> set [1..<length (heap b)].
        case parent (heap b ! i) of None \<Rightarrow> False | Some p \<Rightarrow> p < i) \<and>
     m_renderParagraph b = 1 \<and>
     (case m_renderView b of None \<Rightarrow> m_currentRenderObject b = None | Some v \<Rightarrow> v = 0) \<and>
     (case m_currentRenderObject b of None \<Rightarrow> True | Some c \<Rightarrow> c < length (heap b))"

text \<open>
  A builder whose store is the view, the paragraph and \<open>n\<close> spans, each the only child
  of the one before, with the cursor at the last.
\<close>

definition spine :: "nat \<Rightarrow> ParagraphBuilder \<Rightarrow> bool" where
  "spine n b \<longleftrightarrow>
     map parent (heap b) = None # map Some [0..<Suc n] \<and>
     m_currentRenderObject b = Some (Suc n) \<and> m_renderParagraph b = 1 \<and>
     m_renderView b = Some 0"

text \<open>The first slot of the encoded list, when there is one, has a bit of \<open>b\<close> set.\<close>

definition maskHas :: "int32 list \<Rightarrow> int32 \<Rightarrow> bool" where
  "maskHas encoded b = (case encoded of [] \<Rightarrow> False | msk # _ \<Rightarrow> msk AND b \<noteq> 0)"

subsection \<open>What a diff asks of the font description\<close>

text \<open>
  Written from the specification (sections 4.1 and 4.2), not from the code, to be
  compared with what \<^verbatim>\<open>pushStyle\<close> and \<^verbatim>\<open>build\<close> install: the font description a diff asks
  for is the description it starts from with the field of every bit that is set in the
  mask replaced by the value the diff carries. A font size sets the specified size to the
  value requested, marks it absolute, and sets the computed size to that value, or to
  zero when it is below the epsilon. The bit positions are those of the record tables: 5
  to 10 of a text style for weight, style, family, size, letter spacing and word spacing,
  3 to 6 of a paragraph style for weight, style, family and size.
\<close>

definition textFontOverrides ::
  "externals \<Rightarrow> int32 \<Rightarrow> int32 list \<Rightarrow> string \<Rightarrow> real \<Rightarrow> real \<Rightarrow> real \<Rightarrow> FontDescription
     \<Rightarrow> FontDescription" where
  "textFontOverrides ext msk encoded fontFamily fontSize letterSpacing wordSpacing fd =
     fd\<lparr>fd_weight := (if bit msk 5 then encoded ! 5 else fd_weight fd),
        fd_style := (if bit msk 6 then encoded ! 6 else fd_style fd),
        fd_family := (if bit msk 7 then fontFamily else fd_family fd),
        fd_specifiedSize := (if bit msk 8 then float_of ext fontSize else fd_specifiedSize fd),
        fd_isAbsoluteSize := (if bit msk 8 then True else fd_isAbsoluteSize fd),
        fd_computedSize :=
          (if bit msk 8
           then (if float_of ext fontSize < 1 / 2 ^ 23 then 0 else float_of ext fontSize)
           else fd_computedSize fd),
        fd_letterSpacing :=
          (if bit msk 9 then float_of ext letterSpacing else fd_letterSpacing fd),
        fd_wordSpacing := (if bit msk 10 then float_of ext wordSpacing else fd_wordSpacing fd)\<rparr>"

definition paragraphFontOverrides ::
  "externals \<Rightarrow> int32 \<Rightarrow> int32 list \<Rightarrow> string \<Rightarrow> real \<Rightarrow> FontDescription \<Rightarrow> FontDescription" where
  "paragraphFontOverrides ext msk encoded fontFamily fontSize fd =
     fd\<lparr>fd_weight := (if bit msk 3 then encoded ! 3 else fd_weight fd),
        fd_style := (if bit msk 4 then encoded ! 4 else fd_style fd),
        fd_family := (if bit msk 5 then fontFamily else fd_family fd),
        fd_specifiedSize := (if bit msk 6 then float_of ext fontSize else fd_specifiedSize fd),
        fd_isAbsoluteSize := (if bit msk 6 then True else fd_isAbsoluteSize fd),
        fd_computedSize :=
          (if bit msk 6
           then (if float_of ext fontSize < 1 / 2 ^ 23 then 0 else float_of ext fontSize)
           else fd_computedSize fd)\<rparr>"

subsection \<open>An instance of the collaborators\<close>

text \<open>
  Modelled from the spec: the bodies of \<^verbatim>\<open>RenderStyle::create\<close>,
  \<^verbatim>\<open>RenderStyle::inheritFrom\<close>, \<^verbatim>\<open>RenderStyle::applyTextDecorations\<close> and
  \<^verbatim>\<open>FontDescription::FontDescription\<close> are outside the files at hand. In the
  specification a node's style is its parent's style copied, and setting the decoration
  derives the applied decoration set again. The two roundings are the identity, which
  they are on the numbers the calls below are given. This instance is used to evaluate
  the model on concrete calls; the general theorems hold for every instance.
\<close>

definition sample_fontDescription :: FontDescription where
  "sample_fontDescription =
     \<lparr>fd_script = 0, fd_specifiedSize = 0, fd_computedSize = 0, fd_isAbsoluteSize = False,
      fd_orientation = Horizontal,
      fd_nonCJKGlyphOrientation = NonCJKGlyphOrientationVerticalRight,
      fd_weight = 3, fd_style = 0, fd_family = [], fd_letterSpacing = 0,
      fd_wordSpacing = 0\<rparr>"

definition sample_style :: RenderStyle where
  "sample_style =
     \<lparr>color = Color_rgba 0 0 0 255, textDecoration = 0, appliedTextDecorations = [],
      textDecorationColor = CurrentColor, textDecorationStyle = 0,
      fontDescription = sample_fontDescription,
      lineHeight = Length_of (- 100) Percent, textAlign = 0, display = INLINE,
      rtlOrdering = LogicalOrder, zIndex = 0, userModify = READ_ONLY, style_locale = []\<rparr>"

definition sample_externals :: externals where
  "sample_externals =
     \<lparr>dcheck_is_on = True,
      RenderStyle_create = sample_style,
      inheritFrom = (\<lambda>child parentStyle. parentStyle),
      applyTextDecorations =
        (\<lambda>s. s\<lparr>appliedTextDecorations :=
                 (if textDecoration s = 0 then []
                  else [(textDecoration s, textDecorationStyle s, textDecorationColor s)])\<rparr>),
      FontDescription_new = sample_fontDescription,
      localeToScriptCodeForFontSelection = (\<lambda>l. 0),
      float_of = (\<lambda>x. x),
      double_of = (\<lambda>x. x)\<rparr>"

section \<open>Color decoding\<close>

lemma byte_masks:
  "(0x00FF0000 :: 32 word) = push_bit 16 (mask 8)"
  "(0x0000FF00 :: 32 word) = push_bit 8 (mask 8)"
  "(0x000000FF :: 32 word) = mask 8"
  "(0xFF000000 :: 32 word) = push_bit 24 (mask 8)"
  by (simp_all add: mask_eq_exp_minus_1)

lemma red_bits: "signed_drop_bit 16 (x AND 0x00FF0000 :: 32 word) = take_bit 8 (drop_bit 16 x)"
  unfolding byte_masks
  by (rule bit_word_eqI) (auto simp add: bit_simps dest: bit_imp_le_length)

lemma green_bits: "signed_drop_bit 8 (x AND 0x0000FF00 :: 32 word) = take_bit 8 (drop_bit 8 x)"
  unfolding byte_masks
  by (rule bit_word_eqI) (auto simp add: bit_simps dest: bit_imp_le_length)

lemma blue_bits: "signed_drop_bit 0 (x AND 0x000000FF :: 32 word) = take_bit 8 x"
  unfolding byte_masks
  by (rule bit_word_eqI) (auto simp add: bit_simps dest: bit_imp_le_length)

lemma alpha_bits: "drop_bit 24 (x AND 0xFF000000 :: 32 word) = drop_bit 24 x"
  unfolding byte_masks
  by (rule bit_word_eqI) (auto simp add: bit_simps dest: bit_imp_le_length)

lemma sint_byte: "sint (take_bit 8 (w :: 32 word)) = uint (take_bit 8 w)"
  by (simp add: sint_uint signed_take_bit_eq_if_positive bit_simps unsigned_take_bit_eq)

lemma top_byte: "drop_bit 24 (w :: 32 word) = take_bit 8 (drop_bit 24 w)"
  by (rule bit_word_eqI) (auto simp add: bit_simps dest: bit_imp_le_length)

lemma sint_top_byte: "sint (drop_bit 24 (w :: 32 word)) = uint (drop_bit 24 w)"
  using sint_byte [of "drop_bit 24 w"] top_byte [of w] by simp

lemma getColorFromARGB_channels:
  "getColorFromARGB x =
     \<lparr>red = uint (take_bit 8 (drop_bit 16 x)), green = uint (take_bit 8 (drop_bit 8 x)),
      blue = uint (take_bit 8 x), alpha = uint (drop_bit 24 x)\<rparr>"
  unfolding getColorFromARGB_def Color_rgba_def red_bits green_bits blue_bits alpha_bits
    sint_byte sint_top_byte ..

text \<open>
  Every channel is a byte, so a constructor that clamps its arguments to 0..255 stores
  them as they are.
\<close>

lemma getColorFromARGB_range:
  "0 \<le> red (getColorFromARGB x) \<and> red (getColorFromARGB x) < 256 \<and>
   0 \<le> green (getColorFromARGB x) \<and> green (getColorFromARGB x) < 256 \<and>
   0 \<le> blue (getColorFromARGB x) \<and> blue (getColorFromARGB x) < 256 \<and>
   0 \<le> alpha (getColorFromARGB x) \<and> alpha (getColorFromARGB x) < 256"
proof -
  have byte: "uint (take_bit 8 w) < 256" for w :: "32 word"
    using take_bit_int_less_exp [of 8 "uint w"] by (simp add: unsigned_take_bit_eq)
  have "uint (drop_bit 24 x) < 256"
    using byte [of "drop_bit 24 x"] top_byte [of x] by simp
  with byte show ?thesis
    by (simp add: getColorFromARGB_channels)
qed

lemma packARGB_getColorFromARGB: "packARGB (getColorFromARGB x) = x"
proof (rule bit_word_eqI)
  fix n assume n: "n < LENGTH(32)"
  consider "n < 8" | "8 \<le> n" "n < 16" | "16 \<le> n" "n < 24" | "24 \<le> n"
    by linarith
  then show "bit (packARGB (getColorFromARGB x)) n = bit x n"
  proof cases
    case 1
    then show ?thesis
      by (auto simp add: getColorFromARGB_channels packARGB_def bit_simps)
  next
    case 2
    then show ?thesis
      by (auto simp add: getColorFromARGB_channels packARGB_def bit_simps)
  next
    case 3
    then show ?thesis
      by (auto simp add: getColorFromARGB_channels packARGB_def bit_simps)
  next
    case 4
    then show ?thesis using n
      by (auto simp add: getColorFromARGB_channels packARGB_def bit_simps)
  qed
qed

text \<open>
  Claim C7. For every 32-bit integer the decoder takes alpha from bits 31..24, red from
  bits 23..16, green from bits 15..8 and blue from bits 7..0; packing the decoded
  channels gives the integer back, so decoding the packed channels again yields the same
  channels.
\<close>

theorem getColorFromARGB_decodes_and_inverts:
  "alpha (getColorFromARGB x) = uint (drop_bit 24 x) \<and>
   red (getColorFromARGB x) = uint (take_bit 8 (drop_bit 16 x)) \<and>
   green (getColorFromARGB x) = uint (take_bit 8 (drop_bit 8 x)) \<and>
   blue (getColorFromARGB x) = uint (take_bit 8 x) \<and>
   packARGB (getColorFromARGB x) = x \<and>
   getColorFromARGB (packARGB (getColorFromARGB x)) = getColorFromARGB x"
  by (simp add: packARGB_getColorFromARGB) (simp add: getColorFromARGB_channels)

section \<open>Results and reads\<close>

lemma andThen_Inl: "andThen (Inl e) f = Inl e"
  by (simp add: andThen_def)

lemma andThen_Inr: "andThen (Inr v) f = f v"
  by (simp add: andThen_def)

lemma andThen_eq_Inr: "andThen r f = Inr y \<longleftrightarrow> (\<exists>v. r = Inr v \<and> f v = Inr y)"
  by (cases r) (simp_all add: andThen_def)

lemma andThen_eq_Inl: "andThen r f = Inl e \<longleftrightarrow> r = Inl e \<or> (\<exists>v. r = Inr v \<and> f v = Inl e)"
  by (cases r) (simp_all add: andThen_def)

lemma rd_in_range: "i < length encoded \<Longrightarrow> rd encoded i = Inr (encoded ! i)"
  by (simp add: rd_def)

lemma rd_eq_Inr: "rd encoded i = Inr v \<longleftrightarrow> i < length encoded \<and> v = encoded ! i"
  by (auto simp add: rd_def)

lemma rd_eq_Inl: "rd encoded i = Inl e \<longleftrightarrow> \<not> i < length encoded \<and> e = IndexOutOfBounds"
  by (auto simp add: rd_def)

lemma ifBit_in_range:
  "i < length encoded \<Longrightarrow>
   ifBit msk b encoded i f x = Inr (if msk AND b \<noteq> 0 then f (encoded ! i) x else x)"
  by (simp add: ifBit_def rd_def andThen_def)

lemma ifBit_eq_Inr:
  "ifBit msk b encoded i f x = Inr y \<Longrightarrow> y = (if msk AND b \<noteq> 0 then f (encoded ! i) x else x)"
  by (auto simp add: ifBit_def rd_def andThen_def split: if_splits)

lemma ifBit_eq_Inl: "ifBit msk b encoded i f x = Inl e \<Longrightarrow> e = IndexOutOfBounds"
  by (auto simp add: ifBit_def rd_def andThen_def split: if_splits)

lemma ifBit_frame:
  assumes "ifBit msk b encoded i f x = Inr y" and "\<And>v. g (f v x) = g x"
  shows "g y = g x"
  using assms by (auto dest!: ifBit_eq_Inr)

lemmas ts_index_defs =
  tsColorIndex_def tsTextDecorationIndex_def tsTextDecorationColorIndex_def
  tsTextDecorationStyleIndex_def tsFontWeightIndex_def tsFontStyleIndex_def
  tsFontFamilyIndex_def tsFontSizeIndex_def tsLetterSpacingIndex_def tsWordSpacingIndex_def
  tsHeightIndex_def

lemmas ps_index_defs =
  psTextAlignIndex_def psTextBaselineIndex_def psFontWeightIndex_def psFontStyleIndex_def
  psFontFamilyIndex_def psFontSizeIndex_def psLineHeightIndex_def

section \<open>The text decoration and font blocks\<close>

lemma ts_textDecoration_in_range:
  "tsTextDecorationIndex < length encoded \<Longrightarrow>
   ts_textDecoration ext msk encoded (s, lg) =
     Inr (if msk AND tsTextDecorationMask \<noteq> 0
          then (applyTextDecorations ext (setTextDecoration (encoded ! tsTextDecorationIndex) s),
                lg @ [ApplyTextDecorations])
          else (s, lg))"
  by (simp add: ts_textDecoration_def call_applyTextDecorations_def rd_def andThen_def)

lemma ts_textDecoration_eq_Inr:
  "ts_textDecoration ext msk encoded (s, lg) = Inr sl \<Longrightarrow>
   sl = (if msk AND tsTextDecorationMask \<noteq> 0
         then (applyTextDecorations ext (setTextDecoration (encoded ! tsTextDecorationIndex) s),
               lg @ [ApplyTextDecorations])
         else (s, lg))"
  by (auto simp add: ts_textDecoration_def call_applyTextDecorations_def rd_def andThen_def
      split: if_splits)

lemma ts_textDecoration_eq_Inl:
  "ts_textDecoration ext msk encoded sl = Inl e \<Longrightarrow> e = IndexOutOfBounds"
  by (cases sl) (auto simp add: ts_textDecoration_def rd_def andThen_def split: if_splits)

lemma mask_bits:
  "msk AND tsFontWeightMask \<noteq> 0 \<longleftrightarrow> bit msk 5"
  "msk AND tsFontStyleMask \<noteq> 0 \<longleftrightarrow> bit msk 6"
  "msk AND tsFontFamilyMask \<noteq> 0 \<longleftrightarrow> bit msk 7"
  "msk AND tsFontSizeMask \<noteq> 0 \<longleftrightarrow> bit msk 8"
  "msk AND tsLetterSpacingMask \<noteq> 0 \<longleftrightarrow> bit msk 9"
  "msk AND tsWordSpacingMask \<noteq> 0 \<longleftrightarrow> bit msk 10"
  "msk AND psFontWeightMask \<noteq> 0 \<longleftrightarrow> bit msk 3"
  "msk AND psFontStyleMask \<noteq> 0 \<longleftrightarrow> bit msk 4"
  "msk AND psFontFamilyMask \<noteq> 0 \<longleftrightarrow> bit msk 5"
  "msk AND psFontSizeMask \<noteq> 0 \<longleftrightarrow> bit msk 6"
  unfolding tsFontWeightMask_def tsFontStyleMask_def tsFontFamilyMask_def tsFontSizeMask_def
    tsLetterSpacingMask_def tsWordSpacingMask_def psFontWeightMask_def psFontStyleMask_def
    psFontFamilyMask_def psFontSizeMask_def ts_index_defs ps_index_defs
  by (simp_all only: bit_iff_and_push_bit_not_eq_0)

lemma textFontOverrides_steps:
  "(if msk AND tsWordSpacingMask \<noteq> 0 then setWordSpacing (float_of ext wordSpacing) else id)
     ((if msk AND tsLetterSpacingMask \<noteq> 0 then setLetterSpacing (float_of ext letterSpacing)
       else id)
       ((if msk AND tsFontSizeMask \<noteq> 0 then setSize ext fontSize else id)
         ((if msk AND tsFontFamilyMask \<noteq> 0 then setFamily (fromUTF8 fontFamily) else id)
           ((if msk AND tsFontStyleMask \<noteq> 0
             then FontDescription_setStyle (encoded ! tsFontStyleIndex) else id)
             ((if msk AND tsFontWeightMask \<noteq> 0
               then setWeight (encoded ! tsFontWeightIndex) else id) fd))))) =
   textFontOverrides ext msk encoded fontFamily fontSize letterSpacing wordSpacing fd"
  unfolding mask_bits
  by (cases "bit msk 5"; cases "bit msk 6"; cases "bit msk 7"; cases "bit msk 8";
      cases "bit msk 9"; cases "bit msk 10")
    (simp_all add: textFontOverrides_def setWordSpacing_def setLetterSpacing_def setSize_def
      setFamily_def FontDescription_setStyle_def setWeight_def setComputedSize_def
      setIsAbsoluteSize_def setSpecifiedSize_def getComputedSizeFromSpecifiedSize_def
      fromUTF8_def ts_index_defs)

lemma ts_font_eq_Inr:
  assumes "ts_font ext msk encoded fontFamily fontSize letterSpacing wordSpacing (s, lg) = Inr sl"
  shows "sl =
    (if msk AND tsFontMasks \<noteq> 0
     then (setFontDescription
             (textFontOverrides ext msk encoded fontFamily fontSize letterSpacing wordSpacing
                (fontDescription s)) s,
           lg @ [SetFontDescription
                   (textFontOverrides ext msk encoded fontFamily fontSize letterSpacing
                      wordSpacing (fontDescription s)),
                 FontUpdate
                   (textFontOverrides ext msk encoded fontFamily fontSize letterSpacing
                      wordSpacing (fontDescription s))])
     else (s, lg))"
proof (cases "msk AND tsFontMasks \<noteq> 0")
  case False
  with assms show ?thesis by (simp add: ts_font_def)
next
  case True
  with assms obtain fd1 fd2 where
    w: "ifBit msk tsFontWeightMask encoded tsFontWeightIndex setWeight (fontDescription s) = Inr fd1"
    and st: "ifBit msk tsFontStyleMask encoded tsFontStyleIndex FontDescription_setStyle fd1 = Inr fd2"
    and sl: "sl = call_font_update (call_setFontDescription
        ((if msk AND tsWordSpacingMask \<noteq> 0 then setWordSpacing (float_of ext wordSpacing) else id)
          ((if msk AND tsLetterSpacingMask \<noteq> 0 then setLetterSpacing (float_of ext letterSpacing)
            else id)
            ((if msk AND tsFontSizeMask \<noteq> 0 then setSize ext fontSize else id)
              ((if msk AND tsFontFamilyMask \<noteq> 0 then setFamily (fromUTF8 fontFamily) else id)
                fd2)))) (s, lg))"
    by (auto simp add: ts_font_def andThen_eq_Inr Let_def)
  have "fd2 = (if msk AND tsFontStyleMask \<noteq> 0
               then FontDescription_setStyle (encoded ! tsFontStyleIndex) else id)
              ((if msk AND tsFontWeightMask \<noteq> 0
                then setWeight (encoded ! tsFontWeightIndex) else id) (fontDescription s))"
    using ifBit_eq_Inr [OF w] ifBit_eq_Inr [OF st] by simp
  with sl True show ?thesis
    by (simp only: textFontOverrides_steps)
      (simp add: call_font_update_def call_setFontDescription_def setFontDescription_def)
qed

lemma ts_font_eq_Inl:
  "ts_font ext msk encoded fontFamily fontSize letterSpacing wordSpacing sl = Inl e \<Longrightarrow>
   e = IndexOutOfBounds"
  by (cases sl)
    (auto simp add: ts_font_def andThen_eq_Inl Let_def split: if_splits dest: ifBit_eq_Inl)

lemma ts_font_in_range:
  "tsFontStyleIndex < length encoded \<Longrightarrow>
   \<exists>sl. ts_font ext msk encoded fontFamily fontSize letterSpacing wordSpacing (s, lg) = Inr sl"
  by (simp add: ts_font_def ifBit_in_range ts_index_defs andThen_Inr Let_def)

lemma ts_font_params:
  assumes "msk AND tsFontFamilyMask \<noteq> 0 \<Longrightarrow> fontFamily = fontFamily'"
    and "msk AND tsFontSizeMask \<noteq> 0 \<Longrightarrow> fontSize = fontSize'"
    and "msk AND tsLetterSpacingMask \<noteq> 0 \<Longrightarrow> letterSpacing = letterSpacing'"
    and "msk AND tsWordSpacingMask \<noteq> 0 \<Longrightarrow> wordSpacing = wordSpacing'"
  shows "ts_font ext msk encoded fontFamily fontSize letterSpacing wordSpacing sl =
         ts_font ext msk encoded fontFamily' fontSize' letterSpacing' wordSpacing' sl"
  using assms
  by (cases sl; cases "msk AND tsFontFamilyMask = 0"; cases "msk AND tsFontSizeMask = 0";
      cases "msk AND tsLetterSpacingMask = 0"; cases "msk AND tsWordSpacingMask = 0")
    (simp_all add: ts_font_def Let_def)


section \<open>Resolving a text style\<close>

lemma pushStyle_resolve_in_range:
  assumes "7 \<le> length encoded"
  shows "\<exists>sl. pushStyle_resolve ext msk encoded fontFamily fontSize letterSpacing wordSpacing
           height (s0, lg) = Inr sl"
proof -
  from assms have r: "tsColorIndex < length encoded" "tsTextDecorationIndex < length encoded"
    "tsTextDecorationColorIndex < length encoded" "tsTextDecorationStyleIndex < length encoded"
    "tsFontStyleIndex < length encoded"
    by (simp_all add: ts_index_defs)
  have "\<exists>sl. ts_font ext msk encoded fontFamily fontSize letterSpacing wordSpacing (s, l) = Inr sl"
    for s l
    using r(5) by (rule ts_font_in_range)
  then show ?thesis
    unfolding pushStyle_resolve_def
    by (simp only: prod.case ifBit_in_range [OF r(1)] ifBit_in_range [OF r(3)]
        ifBit_in_range [OF r(4)] ts_textDecoration_in_range [OF r(2)] andThen_Inr)
      (metis andThen_Inr)
qed

lemma pushStyle_resolve_eq_Inl:
  "pushStyle_resolve ext msk encoded fontFamily fontSize letterSpacing wordSpacing height sl =
     Inl e \<Longrightarrow> e = IndexOutOfBounds"
  by (cases sl)
    (auto simp add: pushStyle_resolve_def andThen_eq_Inl
      dest: ifBit_eq_Inl ts_textDecoration_eq_Inl ts_font_eq_Inl)

lemma pushStyle_resolve_eq_Inr:
  assumes "pushStyle_resolve ext msk encoded fontFamily fontSize letterSpacing wordSpacing
             height (s0, lg) = Inr sl"
  shows "sl =
    (let s1 = (if msk AND tsColorMask \<noteq> 0
               then setColor (getColorFromARGB (encoded ! tsColorIndex)) s0 else s0);
         sl2 = (if msk AND tsTextDecorationMask \<noteq> 0
                then (applyTextDecorations ext
                        (setTextDecoration (encoded ! tsTextDecorationIndex) s1),
                      lg @ [ApplyTextDecorations])
                else (s1, lg));
         s3 = (if msk AND tsTextDecorationColorMask \<noteq> 0
               then setTextDecorationColor
                      (StyleColor (getColorFromARGB (encoded ! tsTextDecorationColorIndex)))
                      (fst sl2)
               else fst sl2);
         s4 = (if msk AND tsTextDecorationStyleMask \<noteq> 0
               then setTextDecorationStyle (encoded ! tsTextDecorationStyleIndex) s3 else s3);
         fd = textFontOverrides ext msk encoded fontFamily fontSize letterSpacing wordSpacing
                (fontDescription s4);
         sl5 = (if msk AND tsFontMasks \<noteq> 0
                then (setFontDescription fd s4, snd sl2 @ [SetFontDescription fd, FontUpdate fd])
                else (s4, snd sl2))
     in (if msk AND tsHeightMask \<noteq> 0
         then setLineHeight (Length_of (float_of ext (double_of ext (height * 100))) Percent)
                (fst sl5)
         else fst sl5,
         snd sl5))"
proof -
  from assms obtain s1 sl2 s3 s4 sl5 where
    c: "ifBit msk tsColorMask encoded tsColorIndex (\<lambda>v. setColor (getColorFromARGB v)) s0 = Inr s1"
    and td: "ts_textDecoration ext msk encoded (s1, lg) = Inr sl2"
    and dc: "ifBit msk tsTextDecorationColorMask encoded tsTextDecorationColorIndex
               (\<lambda>v. setTextDecorationColor (StyleColor (getColorFromARGB v))) (fst sl2) = Inr s3"
    and ds: "ifBit msk tsTextDecorationStyleMask encoded tsTextDecorationStyleIndex
               setTextDecorationStyle s3 = Inr s4"
    and f: "ts_font ext msk encoded fontFamily fontSize letterSpacing wordSpacing (s4, snd sl2)
              = Inr sl5"
    and sl: "sl = (if msk AND tsHeightMask \<noteq> 0
                   then setLineHeight
                          (Length_of (float_of ext (double_of ext (height * 100))) Percent)
                          (fst sl5)
                   else fst sl5,
                   snd sl5)"
    by (auto simp add: pushStyle_resolve_def andThen_eq_Inr)
  note e1 = ifBit_eq_Inr [OF c]
  note e2 = ts_textDecoration_eq_Inr [OF td]
  note e3 = ifBit_eq_Inr [OF dc]
  note e4 = ifBit_eq_Inr [OF ds]
  note e5 = ts_font_eq_Inr [OF f]
  show ?thesis
    unfolding Let_def sl e5 e4 e3 e2 e1 ..
qed

lemma pushStyle_resolve_font:
  assumes "pushStyle_resolve ext msk encoded fontFamily fontSize letterSpacing wordSpacing
             height (s0, lg) = Inr sl"
    and "msk AND tsFontMasks \<noteq> 0"
  shows "fontDescription (fst sl) =
           textFontOverrides ext msk encoded fontFamily fontSize letterSpacing wordSpacing
             (fontDescription
               (if msk AND tsTextDecorationMask \<noteq> 0
                then applyTextDecorations ext
                       (setTextDecoration (encoded ! tsTextDecorationIndex)
                          (if msk AND tsColorMask \<noteq> 0
                           then setColor (getColorFromARGB (encoded ! tsColorIndex)) s0 else s0))
                else s0))"
    and "snd sl = lg @ (if msk AND tsTextDecorationMask \<noteq> 0 then [ApplyTextDecorations] else [])
           @ [SetFontDescription (fontDescription (fst sl)), FontUpdate (fontDescription (fst sl))]"
  using assms(2)
  by (simp_all add: pushStyle_resolve_eq_Inr [OF assms(1)] Let_def setLineHeight_def
      setFontDescription_def setTextDecorationStyle_def setTextDecorationColor_def setColor_def)

lemma pushStyle_resolve_no_font:
  assumes "pushStyle_resolve ext msk encoded fontFamily fontSize letterSpacing wordSpacing
             height (s0, lg) = Inr sl"
    and "msk AND tsFontMasks = 0"
  shows "snd sl = lg @ (if msk AND tsTextDecorationMask \<noteq> 0 then [ApplyTextDecorations] else [])"
  using assms(2)
  by (simp add: pushStyle_resolve_eq_Inr [OF assms(1)] Let_def)

lemma pushStyle_resolve_frame:
  assumes "pushStyle_resolve ext msk encoded fontFamily fontSize letterSpacing wordSpacing
             height (s0, lg) = Inr sl"
    and "msk AND tsTextDecorationMask = 0"
  shows "fst sl =
           s0\<lparr>color := (if msk AND tsColorMask \<noteq> 0
                       then getColorFromARGB (encoded ! tsColorIndex) else color s0),
              textDecorationColor :=
                (if msk AND tsTextDecorationColorMask \<noteq> 0
                 then StyleColor (getColorFromARGB (encoded ! tsTextDecorationColorIndex))
                 else textDecorationColor s0),
              textDecorationStyle :=
                (if msk AND tsTextDecorationStyleMask \<noteq> 0
                 then encoded ! tsTextDecorationStyleIndex else textDecorationStyle s0),
              fontDescription :=
                (if msk AND tsFontMasks \<noteq> 0
                 then textFontOverrides ext msk encoded fontFamily fontSize letterSpacing
                        wordSpacing (fontDescription s0)
                 else fontDescription s0),
              lineHeight :=
                (if msk AND tsHeightMask \<noteq> 0
                 then Length_of (float_of ext (double_of ext (height * 100))) Percent
                 else lineHeight s0)\<rparr>"
    and "snd sl = lg @ (if msk AND tsFontMasks \<noteq> 0
                        then [SetFontDescription (fontDescription (fst sl)),
                              FontUpdate (fontDescription (fst sl))]
                        else [])"
  using assms(2)
  by (simp_all add: pushStyle_resolve_eq_Inr [OF assms(1)] Let_def setLineHeight_def
      setFontDescription_def setTextDecorationStyle_def setTextDecorationColor_def setColor_def)

lemma pushStyle_resolve_params:
  assumes "msk AND tsFontFamilyMask \<noteq> 0 \<Longrightarrow> fontFamily = fontFamily'"
    and "msk AND tsFontSizeMask \<noteq> 0 \<Longrightarrow> fontSize = fontSize'"
    and "msk AND tsLetterSpacingMask \<noteq> 0 \<Longrightarrow> letterSpacing = letterSpacing'"
    and "msk AND tsWordSpacingMask \<noteq> 0 \<Longrightarrow> wordSpacing = wordSpacing'"
    and "msk AND tsHeightMask \<noteq> 0 \<Longrightarrow> height = height'"
  shows "pushStyle_resolve ext msk encoded fontFamily fontSize letterSpacing wordSpacing height sl =
         pushStyle_resolve ext msk encoded fontFamily' fontSize' letterSpacing' wordSpacing'
           height' sl"
proof -
  have f: "ts_font ext msk encoded fontFamily fontSize letterSpacing wordSpacing x =
           ts_font ext msk encoded fontFamily' fontSize' letterSpacing' wordSpacing' x" for x
    using assms(1-4) by (rule ts_font_params)
  show ?thesis
  proof (cases "msk AND tsHeightMask = 0")
    case True
    then show ?thesis
      by (cases sl) (simp add: pushStyle_resolve_def f)
  next
    case False
    with assms(5) have "height = height'" by simp
    then show ?thesis
      by (cases sl) (simp add: pushStyle_resolve_def f)
  qed
qed


section \<open>The store\<close>

lemma addChild_new:
  assumes "p < length h"
  shows "addChild p (length h) (h @ [n]) =
         h[p := (h ! p)\<lparr>children := children (h ! p) @ [length h]\<rparr>] @ [n\<lparr>parent := Some p\<rparr>]"
  using assms by (simp add: addChild_def Let_def list_update_append nth_append)

lemma addChild_new_length: "length (addChild p (length h) (h @ [n])) = Suc (length h)"
  by (simp add: addChild_def Let_def)

lemma addChild_new_old:
  assumes "p < length h" and "i < length h"
  shows "parent (addChild p (length h) (h @ [n]) ! i) = parent (h ! i)"
    and "kind (addChild p (length h) (h @ [n]) ! i) = kind (h ! i)"
    and "style (addChild p (length h) (h @ [n]) ! i) = style (h ! i)"
    and "children (addChild p (length h) (h @ [n]) ! i) =
           (if i = p then children (h ! i) @ [length h] else children (h ! i))"
  using assms by (simp_all add: addChild_new nth_append nth_list_update)

lemma addChild_new_last:
  assumes "p < length h"
  shows "addChild p (length h) (h @ [n]) ! length h = n\<lparr>parent := Some p\<rparr>"
  using assms by (simp add: addChild_new nth_append)

section \<open>The operations, case by case\<close>

lemma pushStyle_eq_Inr:
  assumes "pushStyle ext b encoded fontFamily fontSize letterSpacing wordSpacing height = Inr b'"
  shows "\<exists>cur sl. m_currentRenderObject b = Some cur \<and> 0 < length encoded \<and>
           (dcheck_is_on ext \<longrightarrow> length encoded = 7) \<and>
           pushStyle_resolve ext (encoded ! 0) encoded fontFamily fontSize letterSpacing
             wordSpacing height
             (inheritFrom ext (RenderStyle_create ext) (style (heap b ! cur)), calls b) = Inr sl \<and>
           b' = b\<lparr>heap := addChild cur (length (heap b))
                             (heap b @ [newObject RenderInline (fst sl)]),
                   m_currentRenderObject := Some (length (heap b)),
                   calls := snd sl\<rparr>"
  using assms
  by (auto simp add: pushStyle_def andThen_eq_Inr rd_eq_Inr Let_def
      split: if_splits option.splits)

lemma pushStyle_in_range:
  assumes "m_currentRenderObject b = Some cur" and "7 \<le> length encoded"
    and "dcheck_is_on ext \<longrightarrow> length encoded = 7"
  shows "\<exists>b'. pushStyle ext b encoded fontFamily fontSize letterSpacing wordSpacing height = Inr b'"
proof -
  from pushStyle_resolve_in_range [OF assms(2)]
  obtain sl where "pushStyle_resolve ext (encoded ! 0) encoded fontFamily fontSize letterSpacing
      wordSpacing height
      (inheritFrom ext (RenderStyle_create ext) (style (heap b ! cur)), calls b) = Inr sl"
    by blast
  moreover from assms(2) have "0 < length encoded"
    by linarith
  then have "rd encoded 0 = Inr (encoded ! 0)"
    by (rule rd_in_range)
  ultimately show ?thesis
    using assms(1,3) by (auto simp add: pushStyle_def andThen_Inr Let_def)
qed

lemma pushStyle_null:
  assumes "m_currentRenderObject b = None" and "dcheck_is_on ext \<longrightarrow> length encoded = 7"
  shows "pushStyle ext b encoded fontFamily fontSize letterSpacing wordSpacing height =
         Inl NullPointerDereference"
  using assms by (auto simp add: pushStyle_def)

lemma pushStyle_eq_Inl:
  assumes "pushStyle ext b encoded fontFamily fontSize letterSpacing wordSpacing height = Inl e"
  shows "(e = DCheckFailure \<and> dcheck_is_on ext \<and> length encoded \<noteq> 7) \<or>
         (e = NullPointerDereference \<and> m_currentRenderObject b = None) \<or>
         (e = IndexOutOfBounds \<and> length encoded < 7)"
proof (cases "dcheck_is_on ext \<and> length encoded \<noteq> 7")
  case True
  with assms show ?thesis by (simp add: pushStyle_def)
next
  case False
  show ?thesis
  proof (cases "m_currentRenderObject b")
    case None
    with assms False show ?thesis by (auto simp add: pushStyle_def)
  next
    case (Some cur)
    have short: "length encoded < 7"
    proof (rule ccontr)
      assume "\<not> length encoded < 7"
      then have "7 \<le> length encoded" by simp
      moreover from False this have "dcheck_is_on ext \<longrightarrow> length encoded = 7"
        by blast
      ultimately obtain b' where
        "pushStyle ext b encoded fontFamily fontSize letterSpacing wordSpacing height = Inr b'"
        using pushStyle_in_range [OF Some] by blast
      with assms show False by simp
    qed
    from assms Some False have "e = IndexOutOfBounds"
      by (auto simp add: pushStyle_def andThen_eq_Inl rd_eq_Inl Let_def
          dest: pushStyle_resolve_eq_Inl)
    with short show ?thesis by simp
  qed
qed

section \<open>The invariant of the builder\<close>

lemma has_parent_iff:
  "(case x of None \<Rightarrow> False | Some p \<Rightarrow> p < i) \<longleftrightarrow> (\<exists>p<i. x = Some (p::nat))"
  by (cases x) auto

lemma cursor_ok_iff:
  "(case c of None \<Rightarrow> True | Some a \<Rightarrow> P a) \<longleftrightarrow> (\<forall>a. c = Some a \<longrightarrow> P a)"
  by (cases c) auto

lemma view_ok_iff:
  "(case v of None \<Rightarrow> Q | Some a \<Rightarrow> a = (0::nat)) \<longleftrightarrow> (v = None \<and> Q \<or> v = Some 0)"
  by (cases v) auto

lemma builder_inv_iff:
  "builder_inv b \<longleftrightarrow>
     2 \<le> length (heap b) \<and> parent (heap b ! 0) = None \<and>
     (\<forall>i. 1 \<le> i \<and> i < length (heap b) \<longrightarrow> (\<exists>p<i. parent (heap b ! i) = Some p)) \<and>
     m_renderParagraph b = 1 \<and>
     (m_renderView b = None \<and> m_currentRenderObject b = None \<or> m_renderView b = Some 0) \<and>
     (\<forall>c. m_currentRenderObject b = Some c \<longrightarrow> c < length (heap b))"
  unfolding builder_inv_def has_parent_iff cursor_ok_iff view_ok_iff
  by (simp add: Ball_def)

lemma builder_inv_new: "builder_inv (ParagraphBuilder_new ext)"
  unfolding builder_inv_iff
  by (simp add: ParagraphBuilder_new_def createRenderView_def createFontForDocument_def
      addChild_def newObject_def createRenderParagraph_def Let_def split: prod.splits)

lemma builder_inv_pop:
  assumes "builder_inv b"
  shows "builder_inv (pop b)"
proof (cases "m_currentRenderObject b")
  case None
  with assms show ?thesis by (simp add: pop_def)
next
  case (Some cur)
  show ?thesis
  proof (cases "cur = 0")
    case True
    with assms Some show ?thesis
      by (simp add: builder_inv_iff pop_def)
  next
    case False
    with assms Some obtain p where "p < cur" "parent (heap b ! cur) = Some p"
      unfolding builder_inv_iff by (metis One_nat_def Suc_leI neq0_conv)
    with assms Some show ?thesis
      by (simp add: builder_inv_iff pop_def)
  qed
qed

lemma builder_inv_pushStyle:
  assumes "builder_inv b"
    and "pushStyle ext b encoded fontFamily fontSize letterSpacing wordSpacing height = Inr b'"
  shows "builder_inv b'"
proof -
  from pushStyle_eq_Inr [OF assms(2)] obtain cur sl where
    cur: "m_currentRenderObject b = Some cur"
    and b': "b' = b\<lparr>heap := addChild cur (length (heap b))
                             (heap b @ [newObject RenderInline (fst sl)]),
                   m_currentRenderObject := Some (length (heap b)),
                   calls := snd sl\<rparr>"
    by blast
  from assms(1) cur have c: "cur < length (heap b)" and v: "m_renderView b = Some 0"
    by (auto simp add: builder_inv_iff)
  have "\<exists>p<i. parent (heap b' ! i) = Some p" if "1 \<le> i" "i < length (heap b')" for i
  proof (cases "i < length (heap b)")
    case True
    with assms(1) that c show ?thesis
      by (simp add: b' addChild_new_old builder_inv_iff)
  next
    case False
    with that have "i = length (heap b)"
      by (simp add: b' addChild_new_length)
    with c show ?thesis
      by (auto simp add: b' addChild_new_last newObject_def)
  qed
  moreover have "parent (heap b' ! 0) = None"
  proof -
    from assms(1) have "0 < length (heap b)"
      unfolding builder_inv_iff by linarith
    from addChild_new_old(1) [OF c this] assms(1) show ?thesis
      by (simp add: b' builder_inv_iff)
  qed
  ultimately show ?thesis
    using assms(1) v by (simp add: builder_inv_iff b' addChild_new_length)
qed

lemma builder_inv_addText:
  assumes "builder_inv b"
  shows "builder_inv (addText ext b txt)"
proof (cases "m_currentRenderObject b")
  case None
  with assms show ?thesis by (simp add: addText_def)
next
  case (Some cur)
  let ?n = "newObject (RenderText (fromUTF8 txt))
              (inheritFrom ext (RenderStyle_create ext) (style (heap b ! cur)))"
  have b': "addText ext b txt = b\<lparr>heap := addChild cur (length (heap b)) (heap b @ [?n])\<rparr>"
    using Some by (simp add: addText_def Let_def)
  from assms Some have c: "cur < length (heap b)" and v: "m_renderView b = Some 0"
    by (auto simp add: builder_inv_iff)
  have "\<exists>p<i. parent (heap (addText ext b txt) ! i) = Some p"
    if "1 \<le> i" "i < length (heap (addText ext b txt))" for i
  proof (cases "i < length (heap b)")
    case True
    with assms that c show ?thesis
      by (simp add: b' addChild_new_old builder_inv_iff)
  next
    case False
    with that have "i = length (heap b)"
      by (simp add: b' addChild_new_length)
    with c show ?thesis
      by (auto simp add: b' addChild_new_last newObject_def)
  qed
  moreover have "parent (heap (addText ext b txt) ! 0) = None"
  proof -
    from assms have "0 < length (heap b)"
      unfolding builder_inv_iff by linarith
    from addChild_new_old(1) [OF c this] assms show ?thesis
      by (simp add: b' builder_inv_iff)
  qed
  ultimately show ?thesis
    using assms v Some c by (simp add: builder_inv_iff b' addChild_new_length)
qed


section \<open>Resolving a paragraph style\<close>

lemma paragraphFontOverrides_steps:
  "(if msk AND psFontSizeMask \<noteq> 0 then setSize ext fontSize else id)
     ((if msk AND psFontFamilyMask \<noteq> 0 then setFamily (fromUTF8 fontFamily) else id)
       ((if msk AND psFontStyleMask \<noteq> 0
         then FontDescription_setStyle (encoded ! psFontStyleIndex) else id)
         ((if msk AND psFontWeightMask \<noteq> 0
           then setWeight (encoded ! psFontWeightIndex) else id) fd))) =
   paragraphFontOverrides ext msk encoded fontFamily fontSize fd"
  unfolding mask_bits
  by (cases "bit msk 3"; cases "bit msk 4"; cases "bit msk 5"; cases "bit msk 6")
    (simp_all add: paragraphFontOverrides_def setSize_def setFamily_def
      FontDescription_setStyle_def setWeight_def setComputedSize_def setIsAbsoluteSize_def
      setSpecifiedSize_def getComputedSizeFromSpecifiedSize_def fromUTF8_def ps_index_defs)

lemma ps_font_eq_Inr:
  assumes "ps_font ext msk encoded fontFamily fontSize (s, lg) = Inr sl"
  shows "sl =
    (if msk AND psFontMasks \<noteq> 0
     then (setFontDescription
             (paragraphFontOverrides ext msk encoded fontFamily fontSize (fontDescription s)) s,
           lg @ [SetFontDescription
                   (paragraphFontOverrides ext msk encoded fontFamily fontSize
                      (fontDescription s)),
                 FontUpdate
                   (paragraphFontOverrides ext msk encoded fontFamily fontSize
                      (fontDescription s))])
     else (s, lg))"
proof (cases "msk AND psFontMasks \<noteq> 0")
  case False
  with assms show ?thesis by (simp add: ps_font_def)
next
  case True
  with assms obtain fd1 fd2 where
    w: "ifBit msk psFontWeightMask encoded psFontWeightIndex setWeight (fontDescription s) = Inr fd1"
    and st: "ifBit msk psFontStyleMask encoded psFontStyleIndex FontDescription_setStyle fd1 = Inr fd2"
    and sl: "sl = call_font_update (call_setFontDescription
        ((if msk AND psFontSizeMask \<noteq> 0 then setSize ext fontSize else id)
          ((if msk AND psFontFamilyMask \<noteq> 0 then setFamily (fromUTF8 fontFamily) else id)
            fd2)) (s, lg))"
    by (auto simp add: ps_font_def andThen_eq_Inr Let_def)
  have "fd2 = (if msk AND psFontStyleMask \<noteq> 0
               then FontDescription_setStyle (encoded ! psFontStyleIndex) else id)
              ((if msk AND psFontWeightMask \<noteq> 0
                then setWeight (encoded ! psFontWeightIndex) else id) (fontDescription s))"
    using ifBit_eq_Inr [OF w] ifBit_eq_Inr [OF st] by simp
  with sl True show ?thesis
    by (simp only: paragraphFontOverrides_steps)
      (simp add: call_font_update_def call_setFontDescription_def setFontDescription_def)
qed

lemma ps_font_eq_Inl:
  "ps_font ext msk encoded fontFamily fontSize sl = Inl e \<Longrightarrow> e = IndexOutOfBounds"
  by (cases sl)
    (auto simp add: ps_font_def andThen_eq_Inl Let_def split: if_splits dest: ifBit_eq_Inl)

lemma ps_font_in_range:
  "psFontStyleIndex < length encoded \<Longrightarrow>
   \<exists>sl. ps_font ext msk encoded fontFamily fontSize (s, lg) = Inr sl"
  by (simp add: ps_font_def ifBit_in_range ps_index_defs andThen_Inr Let_def)

lemma ps_font_params:
  assumes "msk AND psFontFamilyMask \<noteq> 0 \<Longrightarrow> fontFamily = fontFamily'"
    and "msk AND psFontSizeMask \<noteq> 0 \<Longrightarrow> fontSize = fontSize'"
  shows "ps_font ext msk encoded fontFamily fontSize sl = ps_font ext msk encoded fontFamily' fontSize' sl"
  using assms
  by (cases sl; cases "msk AND psFontFamilyMask = 0"; cases "msk AND psFontSizeMask = 0")
    (simp_all add: ps_font_def Let_def)

lemma build_resolve_in_range:
  assumes "5 \<le> length encoded"
  shows "\<exists>sl. build_resolve ext msk encoded fontFamily fontSize lineHeight_arg (s0, lg) = Inr sl"
proof -
  from assms have r: "psTextAlignIndex < length encoded" "psFontStyleIndex < length encoded"
    by (simp_all add: ps_index_defs)
  have "\<exists>sl. ps_font ext msk encoded fontFamily fontSize (s, l) = Inr sl" for s l
    using r(2) by (rule ps_font_in_range)
  then show ?thesis
    unfolding build_resolve_def
    by (simp only: prod.case ifBit_in_range [OF r(1)] andThen_Inr) (metis andThen_Inr)
qed

lemma build_resolve_eq_Inl:
  "build_resolve ext msk encoded fontFamily fontSize lineHeight_arg sl = Inl e \<Longrightarrow>
   e = IndexOutOfBounds"
  by (cases sl)
    (auto simp add: build_resolve_def andThen_eq_Inl dest: ifBit_eq_Inl ps_font_eq_Inl)

lemma build_resolve_eq_Inr:
  assumes "build_resolve ext msk encoded fontFamily fontSize lineHeight_arg (s0, lg) = Inr sl"
  shows "sl =
    (let s1 = (if msk AND psTextAlignMask \<noteq> 0
               then setTextAlign (encoded ! psTextAlignIndex) s0 else s0);
         fd = paragraphFontOverrides ext msk encoded fontFamily fontSize (fontDescription s1);
         sl2 = (if msk AND psFontMasks \<noteq> 0
                then (setFontDescription fd s1, lg @ [SetFontDescription fd, FontUpdate fd])
                else (s1, lg))
     in (if msk AND psLineHeightMask \<noteq> 0
         then setLineHeight
                (Length_of (float_of ext (double_of ext (lineHeight_arg * 100))) Percent)
                (fst sl2)
         else fst sl2,
         snd sl2))"
proof -
  from assms obtain s1 sl2 where
    a: "ifBit msk psTextAlignMask encoded psTextAlignIndex setTextAlign s0 = Inr s1"
    and f: "ps_font ext msk encoded fontFamily fontSize (s1, lg) = Inr sl2"
    and sl: "sl = (if msk AND psLineHeightMask \<noteq> 0
                   then setLineHeight
                          (Length_of (float_of ext (double_of ext (lineHeight_arg * 100))) Percent)
                          (fst sl2)
                   else fst sl2,
                   snd sl2)"
    by (auto simp add: build_resolve_def andThen_eq_Inr)
  note e1 = ifBit_eq_Inr [OF a]
  note e2 = ps_font_eq_Inr [OF f]
  show ?thesis
    unfolding Let_def sl e2 e1 ..
qed

lemma build_resolve_font:
  assumes "build_resolve ext msk encoded fontFamily fontSize lineHeight_arg (s0, lg) = Inr sl"
    and "msk AND psFontMasks \<noteq> 0"
  shows "fontDescription (fst sl) =
           paragraphFontOverrides ext msk encoded fontFamily fontSize (fontDescription s0)"
    and "snd sl = lg @ [SetFontDescription (fontDescription (fst sl)),
                        FontUpdate (fontDescription (fst sl))]"
  using assms(2)
  by (simp_all add: build_resolve_eq_Inr [OF assms(1)] Let_def setLineHeight_def
      setFontDescription_def setTextAlign_def)

lemma build_resolve_no_font:
  assumes "build_resolve ext msk encoded fontFamily fontSize lineHeight_arg (s0, lg) = Inr sl"
    and "msk AND psFontMasks = 0"
  shows "snd sl = lg"
  using assms(2)
  by (simp add: build_resolve_eq_Inr [OF assms(1)] Let_def)

lemma build_resolve_params:
  assumes "msk AND psFontFamilyMask \<noteq> 0 \<Longrightarrow> fontFamily = fontFamily'"
    and "msk AND psFontSizeMask \<noteq> 0 \<Longrightarrow> fontSize = fontSize'"
    and "msk AND psLineHeightMask \<noteq> 0 \<Longrightarrow> lineHeight_arg = lineHeight_arg'"
  shows "build_resolve ext msk encoded fontFamily fontSize lineHeight_arg sl =
         build_resolve ext msk encoded fontFamily' fontSize' lineHeight_arg' sl"
proof -
  have f: "ps_font ext msk encoded fontFamily fontSize x = ps_font ext msk encoded fontFamily' fontSize' x"
    for x
    using assms(1,2) by (rule ps_font_params)
  show ?thesis
  proof (cases "msk AND psLineHeightMask = 0")
    case True
    then show ?thesis
      by (cases sl) (simp add: build_resolve_def f)
  next
    case False
    with assms(3) have "lineHeight_arg = lineHeight_arg'" by simp
    then show ?thesis
      by (cases sl) (simp add: build_resolve_def f)
  qed
qed

lemma build_eq_Inr:
  assumes "build ext b encoded fontFamily fontSize lineHeight_arg = Inr (r, b')"
  shows "0 < length encoded \<and> (dcheck_is_on ext \<longrightarrow> length encoded = 5) \<and> r = m_renderView b \<and>
         (if encoded ! 0 = 0
          then b' = b\<lparr>m_currentRenderObject := None, m_renderView := None\<rparr>
          else \<exists>sl. build_resolve ext (encoded ! 0) encoded fontFamily fontSize lineHeight_arg
                       (style (heap b ! m_renderParagraph b), calls b) = Inr sl \<and>
                     b' = b\<lparr>heap := RenderObject_setStyle (m_renderParagraph b) (fst sl) (heap b),
                             calls := snd sl,
                             m_currentRenderObject := None, m_renderView := None\<rparr>)"
  using assms
  by (auto simp add: build_def andThen_eq_Inr rd_eq_Inr split: if_splits)

lemma build_in_range:
  assumes "5 \<le> length encoded" and "dcheck_is_on ext \<longrightarrow> length encoded = 5"
  shows "\<exists>r b'. build ext b encoded fontFamily fontSize lineHeight_arg = Inr (r, b')"
proof -
  from build_resolve_in_range [OF assms(1)]
  obtain sl where "build_resolve ext (encoded ! 0) encoded fontFamily fontSize lineHeight_arg
      (style (heap b ! m_renderParagraph b), calls b) = Inr sl"
    by blast
  moreover from assms(1) have "0 < length encoded"
    by linarith
  then have "rd encoded 0 = Inr (encoded ! 0)"
    by (rule rd_in_range)
  ultimately show ?thesis
    using assms(2) by (auto simp add: build_def andThen_Inr)
qed

lemma build_eq_Inl:
  assumes "build ext b encoded fontFamily fontSize lineHeight_arg = Inl e"
  shows "(e = DCheckFailure \<and> dcheck_is_on ext \<and> length encoded \<noteq> 5) \<or>
         (e = IndexOutOfBounds \<and> length encoded < 5)"
proof (cases "dcheck_is_on ext \<and> length encoded \<noteq> 5")
  case True
  with assms show ?thesis by (simp add: build_def)
next
  case False
  have short: "length encoded < 5"
  proof (rule ccontr)
    assume "\<not> length encoded < 5"
    then have "5 \<le> length encoded" by simp
    moreover from False this have "dcheck_is_on ext \<longrightarrow> length encoded = 5"
      by blast
    ultimately obtain r b' where
      "build ext b encoded fontFamily fontSize lineHeight_arg = Inr (r, b')"
      using build_in_range by blast
    with assms show False by simp
  qed
  from assms False have "e = IndexOutOfBounds"
    by (auto simp add: build_def andThen_eq_Inl rd_eq_Inl
        dest: build_resolve_eq_Inl split: if_splits)
  with short show ?thesis by simp
qed

lemma RenderObject_setStyle_nth:
  "RenderObject_setStyle a s h ! i =
     (if i = a \<and> a < length h then (h ! a)\<lparr>style := s\<rparr> else h ! i)"
  by (cases "a < length h")
    (auto simp add: RenderObject_setStyle_def nth_list_update list_update_beyond)

lemma RenderObject_setStyle_length: "length (RenderObject_setStyle a s h) = length h"
  by (simp add: RenderObject_setStyle_def)

lemma builder_inv_build:
  assumes "builder_inv b"
    and "build ext b encoded fontFamily fontSize lineHeight_arg = Inr (r, b')"
  shows "builder_inv b'"
proof -
  from build_eq_Inr [OF assms(2)] have
    "length (heap b') = length (heap b) \<and> (\<forall>i. parent (heap b' ! i) = parent (heap b ! i)) \<and>
     m_renderParagraph b' = m_renderParagraph b \<and> m_currentRenderObject b' = None \<and>
     m_renderView b' = None"
    by (cases "encoded ! 0 = 0")
      (auto simp add: RenderObject_setStyle_nth RenderObject_setStyle_length)
  with assms(1) show ?thesis
    by (simp add: builder_inv_iff)
qed

section \<open>Evaluating the model\<close>

lemmas setter_defs =
  setScript_def setSpecifiedSize_def setComputedSize_def setIsAbsoluteSize_def
  setOrientation_def setNonCJKGlyphOrientation_def setWeight_def FontDescription_setStyle_def
  setFamily_def setLetterSpacing_def setWordSpacing_def setSize_def
  getComputedSizeFromSpecifiedSize_def fromUTF8_def Length_of_def Color_rgba_def
  setColor_def setTextDecoration_def setTextDecorationColor_def setTextDecorationStyle_def
  setFontDescription_def setLineHeight_def setTextAlign_def setDisplay_def setRTLOrdering_def
  setZIndex_def setUserModify_def

lemmas mask_defs =
  tsColorMask_def tsTextDecorationMask_def tsTextDecorationColorMask_def
  tsTextDecorationStyleMask_def tsFontWeightMask_def tsFontStyleMask_def tsFontFamilyMask_def
  tsFontSizeMask_def tsLetterSpacingMask_def tsWordSpacingMask_def tsHeightMask_def
  tsFontMasks_def psTextAlignMask_def psTextBaselineMask_def psFontWeightMask_def
  psFontStyleMask_def psFontFamilyMask_def psFontSizeMask_def psLineHeightMask_def
  psFontMasks_def ts_index_defs ps_index_defs

lemmas builder_defs =
  ParagraphBuilder_new_def createRenderView_def createFontForDocument_def
  createRenderParagraph_def newObject_def addChild_def RenderObject_setStyle_def
  sample_externals_def sample_style_def sample_fontDescription_def
  call_applyTextDecorations_def call_setFontDescription_def call_font_update_def Let_def

lemmas call_defs =
  pushStyle_def pushStyle_resolve_def ts_textDecoration_def ts_font_def ifBit_def rd_def
  andThen_def build_def build_resolve_def ps_font_def pop_def addText_def

lemma new_sample_cursor:
  "m_currentRenderObject (ParagraphBuilder_new sample_externals) = Some 1"
  "m_renderParagraph (ParagraphBuilder_new sample_externals) = 1"
  "m_renderView (ParagraphBuilder_new sample_externals) = Some 0"
  by (simp_all add: builder_defs)

section \<open>pop\<close>

text \<open>
  Claim C1, as the code has it. For every well-formed builder whose cursor is not null,
  \<^verbatim>\<open>pop\<close> moves the cursor to the parent of the current node and changes nothing else: no
  node is deleted or changed. The cursor becomes null exactly when the node popped from
  was the view, the root of the tree; a pop from the paragraph, the implicit top-level
  node the cursor starts at, leaves the cursor at the view.
\<close>

theorem pop_moves_cursor_to_parent:
  assumes "builder_inv b" and "m_currentRenderObject b = Some cur"
  shows "pop b = b\<lparr>m_currentRenderObject := parent (heap b ! cur)\<rparr> \<and>
         (m_currentRenderObject (pop b) = None \<longleftrightarrow> m_renderView b = Some cur) \<and>
         (cur = m_renderParagraph b \<longrightarrow>
            m_currentRenderObject (pop b) = m_renderView b \<and> m_renderView b \<noteq> None) \<and>
         heap (pop b) = heap b"
proof -
  have p: "pop b = b\<lparr>m_currentRenderObject := parent (heap b ! cur)\<rparr>"
    using assms(2) by (simp add: pop_def)
  from assms have v: "m_renderView b = Some 0" and c: "cur < length (heap b)"
    by (auto simp add: builder_inv_iff)
  have "parent (heap b ! cur) = None \<longleftrightarrow> cur = 0"
  proof (cases "cur = 0")
    case True
    with assms(1) show ?thesis by (simp add: builder_inv_iff)
  next
    case False
    with assms(1) c obtain q where "parent (heap b ! cur) = Some q"
      unfolding builder_inv_iff by (metis One_nat_def Suc_leI neq0_conv)
    with False show ?thesis by simp
  qed
  moreover have "parent (heap b ! cur) = Some 0" if "cur = m_renderParagraph b"
  proof -
    from that assms(1) have "cur = 1" by (simp add: builder_inv_iff)
    with assms(1) c obtain q where "q < 1" "parent (heap b ! cur) = Some q"
      unfolding builder_inv_iff by (metis le_refl)
    then show ?thesis by simp
  qed
  ultimately show ?thesis
    using p v by auto
qed

theorem pop_moves_cursor_to_parent_witness:
  "builder_inv (ParagraphBuilder_new sample_externals) \<and>
   m_currentRenderObject (ParagraphBuilder_new sample_externals) = Some 1 \<and>
   m_currentRenderObject (pop (ParagraphBuilder_new sample_externals)) = Some 0 \<and>
   heap (pop (ParagraphBuilder_new sample_externals)) = heap (ParagraphBuilder_new sample_externals)"
proof -
  note w = pop_moves_cursor_to_parent [OF builder_inv_new new_sample_cursor(1)]
  from w [THEN conjunct2, THEN conjunct2] builder_inv_new [of sample_externals]
  show ?thesis
    by (simp add: new_sample_cursor)
qed

text \<open>
  On a new builder the cursor is at the paragraph, the implicit top-level node. One
  \<^verbatim>\<open>pop\<close> from there leaves the cursor at the view, not null.
\<close>

theorem pop_from_top_span_counterexample:
  "m_currentRenderObject (ParagraphBuilder_new sample_externals) =
     Some (m_renderParagraph (ParagraphBuilder_new sample_externals)) \<and>
   m_currentRenderObject (pop (ParagraphBuilder_new sample_externals)) =
     m_renderView (ParagraphBuilder_new sample_externals) \<and>
   m_currentRenderObject (pop (ParagraphBuilder_new sample_externals)) \<noteq> None"
  by (simp add: builder_defs pop_def)

text \<open>
  Claim C2. With a null cursor (after two pops on a new builder, or after \<^verbatim>\<open>build\<close>)
  \<^verbatim>\<open>pushStyle\<close> dereferences the cursor for the style to inherit from, where
  \<^verbatim>\<open>addText\<close> and \<^verbatim>\<open>pop\<close> return at once and leave the builder as it is.
\<close>

theorem pushStyle_null_cursor_dereferences:
  "m_currentRenderObject (pop (pop (ParagraphBuilder_new sample_externals))) = None \<and>
   pushStyle sample_externals (pop (pop (ParagraphBuilder_new sample_externals)))
     [0, 0, 0, 0, 0, 0, 0] [] 0 0 0 0 = Inl NullPointerDereference \<and>
   pushStyle sample_externals
     (snd (projr (build sample_externals (ParagraphBuilder_new sample_externals)
                    [0, 0, 0, 0, 0] [] 0 0)))
     [0, 0, 0, 0, 0, 0, 0] [] 0 0 0 0 = Inl NullPointerDereference \<and>
   addText sample_externals (pop (pop (ParagraphBuilder_new sample_externals))) ''x'' =
     pop (pop (ParagraphBuilder_new sample_externals)) \<and>
   pop (pop (pop (ParagraphBuilder_new sample_externals))) =
     pop (pop (ParagraphBuilder_new sample_externals))"
  by (simp add: builder_defs pop_def pushStyle_def addText_def build_def rd_def andThen_def)

text \<open>
  Claim C3, as the code has it. \<^verbatim>\<open>pushStyle\<close> fails its \<^verbatim>\<open>DCHECK\<close> exactly when the
  checks are compiled in and the record does not have 7 slots, \<^verbatim>\<open>build\<close> exactly when
  it does not have 5, whatever the state of the builder (the check comes before any
  other step). A record of at least 7 slots (5 for \<^verbatim>\<open>build\<close>) is never read past its end:
  the slots read are 0 to 6 (0, 1, 3 and 4 for \<^verbatim>\<open>build\<close>), the fields of the higher bits
  being passed beside the record. With the checks compiled in, no call reads past the end.
\<close>

theorem encoded_length_checks:
  "(pushStyle ext b encoded fontFamily fontSize letterSpacing wordSpacing height = Inl DCheckFailure
      \<longleftrightarrow> dcheck_is_on ext \<and> length encoded \<noteq> 7) \<and>
   (7 \<le> length encoded \<longrightarrow>
      pushStyle ext b encoded fontFamily fontSize letterSpacing wordSpacing height
        \<noteq> Inl IndexOutOfBounds) \<and>
   (dcheck_is_on ext \<longrightarrow>
      pushStyle ext b encoded fontFamily fontSize letterSpacing wordSpacing height
        \<noteq> Inl IndexOutOfBounds) \<and>
   (build ext b encoded' fontFamily fontSize lineHeight_arg = Inl DCheckFailure
      \<longleftrightarrow> dcheck_is_on ext \<and> length encoded' \<noteq> 5) \<and>
   (5 \<le> length encoded' \<longrightarrow>
      build ext b encoded' fontFamily fontSize lineHeight_arg \<noteq> Inl IndexOutOfBounds) \<and>
   (dcheck_is_on ext \<longrightarrow>
      build ext b encoded' fontFamily fontSize lineHeight_arg \<noteq> Inl IndexOutOfBounds)"
proof -
  let ?p = "pushStyle ext b encoded fontFamily fontSize letterSpacing wordSpacing height"
  let ?b = "build ext b encoded' fontFamily fontSize lineHeight_arg"
  have p1: "?p = Inl DCheckFailure \<longleftrightarrow> dcheck_is_on ext \<and> length encoded \<noteq> 7"
    using pushStyle_eq_Inl [of ext b encoded fontFamily fontSize letterSpacing wordSpacing height
        DCheckFailure]
    by (auto simp add: pushStyle_def)
  have p2: "length encoded < 7" if "?p = Inl IndexOutOfBounds"
    using pushStyle_eq_Inl [OF that] by simp
  have b1: "?b = Inl DCheckFailure \<longleftrightarrow> dcheck_is_on ext \<and> length encoded' \<noteq> 5"
    using build_eq_Inl [of ext b encoded' fontFamily fontSize lineHeight_arg DCheckFailure]
    by (auto simp add: build_def)
  have b2: "length encoded' < 5" if "?b = Inl IndexOutOfBounds"
    using build_eq_Inl [OF that] by simp
  have p3: "?p \<noteq> Inl IndexOutOfBounds" if "dcheck_is_on ext"
  proof
    assume oob: "?p = Inl IndexOutOfBounds"
    with p2 that have "?p = Inl DCheckFailure" by (simp add: pushStyle_def)
    with oob show False by simp
  qed
  have b3: "?b \<noteq> Inl IndexOutOfBounds" if "dcheck_is_on ext"
  proof
    assume oob: "?b = Inl IndexOutOfBounds"
    with b2 that have "?b = Inl DCheckFailure" by (simp add: build_def)
    with oob show False by simp
  qed
  from p1 p2 p3 b1 b2 b3 show ?thesis
    by (meson not_le)
qed

theorem encoded_length_checks_witness:
  "dcheck_is_on sample_externals \<and>
   pushStyle sample_externals (ParagraphBuilder_new sample_externals)
     [0, 0, 0, 0, 0, 0, 0, 0, 0, 0, 0, 0] [] 0 0 0 0 = Inl DCheckFailure \<and>
   build sample_externals (ParagraphBuilder_new sample_externals)
     [0, 0, 0, 0, 0, 0, 0, 0] [] 0 0 = Inl DCheckFailure \<and>
   pushStyle sample_externals (ParagraphBuilder_new sample_externals)
     [0, 0, 0, 0, 0, 0, 0, 0, 0, 0, 0, 0] [] 0 0 0 0 \<noteq> Inl IndexOutOfBounds \<and>
   build sample_externals (ParagraphBuilder_new sample_externals)
     [0, 0, 0, 0, 0, 0, 0, 0] [] 0 0 \<noteq> Inl IndexOutOfBounds"
  using encoded_length_checks [of sample_externals "ParagraphBuilder_new sample_externals"
      "[0, 0, 0, 0, 0, 0, 0, 0, 0, 0, 0, 0]" "[]" 0 0 0 0 "[0, 0, 0, 0, 0, 0, 0, 0]" 0]
  by (simp add: sample_externals_def)

text \<open>
  A record of 7 slots with all eleven bits set is taken by \<^verbatim>\<open>pushStyle\<close>, and one of 5
  slots with all seven bits set by \<^verbatim>\<open>build\<close>; records of 12 and of 8 slots fail the
  \<^verbatim>\<open>DCHECK\<close>.
\<close>

theorem seven_slot_record_counterexample:
  "\<not> isl (pushStyle sample_externals (ParagraphBuilder_new sample_externals)
            [0xFFE, 0xFFFF0000, 1, 2, 3, 4, 5] ''abc'' 10 1 2 3) \<and>
   pushStyle sample_externals (ParagraphBuilder_new sample_externals)
     [0, 0, 0, 0, 0, 0, 0, 0, 0, 0, 0, 0] ''abc'' 10 1 2 3 = Inl DCheckFailure \<and>
   \<not> isl (build sample_externals (ParagraphBuilder_new sample_externals)
            [0xFE, 1, 0, 2, 3] ''abc'' 10 1) \<and>
   build sample_externals (ParagraphBuilder_new sample_externals)
     [0, 0, 0, 0, 0, 0, 0, 0] ''abc'' 10 1 = Inl DCheckFailure"
  by (simp add: builder_defs call_defs mask_defs)


section \<open>build\<close>

text \<open>
  Claim C4, as the code has it. On a well-formed builder \<^verbatim>\<open>build\<close> with a record of 5
  slots returns, and the only thing it may change in the tree is the style of the
  paragraph, the implicit top-level node: every other node, the view (the root) among
  them, is as before, the paragraph keeps its kind, parent and children, and with a mask
  of zero the whole store is as before.
\<close>

theorem build_replaces_paragraph_style_only:
  assumes "builder_inv b" and "length encoded = 5"
  shows "\<exists>r b'. build ext b encoded fontFamily fontSize lineHeight_arg = Inr (r, b') \<and>
           length (heap b') = length (heap b) \<and>
           (\<forall>i. i \<noteq> m_renderParagraph b \<longrightarrow> heap b' ! i = heap b ! i) \<and>
           (\<forall>v. m_renderView b = Some v \<longrightarrow> heap b' ! v = heap b ! v) \<and>
           kind (heap b' ! m_renderParagraph b) = kind (heap b ! m_renderParagraph b) \<and>
           parent (heap b' ! m_renderParagraph b) = parent (heap b ! m_renderParagraph b) \<and>
           children (heap b' ! m_renderParagraph b) = children (heap b ! m_renderParagraph b) \<and>
           (encoded ! 0 = 0 \<longrightarrow> heap b' = heap b)"
proof -
  from assms(2) have "5 \<le> length encoded" "dcheck_is_on ext \<longrightarrow> length encoded = 5"
    by simp_all
  from build_in_range [OF this] obtain r b' where
    ok: "build ext b encoded fontFamily fontSize lineHeight_arg = Inr (r, b')"
    by blast
  from assms(1) have v: "m_renderView b = Some v \<Longrightarrow> v \<noteq> m_renderParagraph b" for v
    by (auto simp add: builder_inv_iff)
  have "length (heap b') = length (heap b) \<and>
        (\<forall>i. i \<noteq> m_renderParagraph b \<longrightarrow> heap b' ! i = heap b ! i) \<and>
        kind (heap b' ! m_renderParagraph b) = kind (heap b ! m_renderParagraph b) \<and>
        parent (heap b' ! m_renderParagraph b) = parent (heap b ! m_renderParagraph b) \<and>
        children (heap b' ! m_renderParagraph b) = children (heap b ! m_renderParagraph b) \<and>
        (encoded ! 0 = 0 \<longrightarrow> heap b' = heap b)"
    using build_eq_Inr [OF ok]
    by (cases "encoded ! 0 = 0")
      (auto simp add: RenderObject_setStyle_nth RenderObject_setStyle_length)
  with ok v show ?thesis
    by blast
qed

theorem build_replaces_paragraph_style_only_witness:
  "builder_inv (ParagraphBuilder_new sample_externals) \<and> length [2, 1, 0, 0, 0 :: int32] = 5 \<and>
   (\<exists>r b'. build sample_externals (ParagraphBuilder_new sample_externals) [2, 1, 0, 0, 0] [] 0 0
              = Inr (r, b') \<and>
            heap b' ! 0 = heap (ParagraphBuilder_new sample_externals) ! 0)"
proof -
  have l: "length [2, 1, 0, 0, 0 :: int32] = 5" by simp
  from build_replaces_paragraph_style_only [OF builder_inv_new l,
      of sample_externals sample_externals "[]" 0 0]
  obtain r b' where
    "build sample_externals (ParagraphBuilder_new sample_externals) [2, 1, 0, 0, 0] [] 0 0
       = Inr (r, b')"
    and "\<forall>v. m_renderView (ParagraphBuilder_new sample_externals) = Some v \<longrightarrow>
             heap b' ! v = heap (ParagraphBuilder_new sample_externals) ! v"
    by blast
  with new_sample_cursor(3) builder_inv_new [of sample_externals] l show ?thesis
    by blast
qed

text \<open>
  On a new builder \<^verbatim>\<open>build\<close> with the text align bit set changes the style of the node
  at address 1, the paragraph the cursor starts at, and leaves the style of the view, at
  address 0, as it was.
\<close>

theorem build_changes_top_span_counterexample:
  "m_currentRenderObject (ParagraphBuilder_new sample_externals) = Some 1 \<and>
   m_renderView (ParagraphBuilder_new sample_externals) = Some 0 \<and>
   \<not> isl (build sample_externals (ParagraphBuilder_new sample_externals) [2, 1, 0, 0, 0] [] 0 0) \<and>
   textAlign (style (heap (ParagraphBuilder_new sample_externals) ! 1)) = 0 \<and>
   textAlign (style (heap (snd (projr
     (build sample_externals (ParagraphBuilder_new sample_externals) [2, 1, 0, 0, 0] [] 0 0)))
     ! 1)) = 1 \<and>
   style (heap (snd (projr
     (build sample_externals (ParagraphBuilder_new sample_externals) [2, 1, 0, 0, 0] [] 0 0)))
     ! 0) = style (heap (ParagraphBuilder_new sample_externals) ! 0)"
  by (simp add: builder_defs call_defs mask_defs setter_defs)

section \<open>addText\<close>

text \<open>
  Claim C10. With a cursor that is not null, \<^verbatim>\<open>addText\<close> of the empty string allocates
  a \<^verbatim>\<open>RenderText\<close> with empty text, whose style inherits from the cursor's and whose
  parent is the cursor, and appends it as the last child of the cursor; the cursor stays.
  For any text, the store keeps its size exactly when the cursor is null.
\<close>

theorem addText_empty_creates_node:
  "(builder_inv b \<and> m_currentRenderObject b = Some cur \<longrightarrow>
      length (heap (addText ext b [])) = Suc (length (heap b)) \<and>
      heap (addText ext b []) ! length (heap b) =
        \<lparr>kind = RenderText [],
         style = inheritFrom ext (RenderStyle_create ext) (style (heap b ! cur)),
         parent = Some cur, children = []\<rparr> \<and>
      children (heap (addText ext b []) ! cur) = children (heap b ! cur) @ [length (heap b)] \<and>
      last (children (heap (addText ext b []) ! cur)) = length (heap b) \<and>
      m_currentRenderObject (addText ext b []) = Some cur) \<and>
   (length (heap (addText ext b txt)) = length (heap b) \<longleftrightarrow> m_currentRenderObject b = None)"
proof -
  have "length (heap (addText ext b txt)) = length (heap b) \<longleftrightarrow> m_currentRenderObject b = None"
    by (cases "m_currentRenderObject b") (simp_all add: addText_def Let_def addChild_new_length)
  moreover have
    "length (heap (addText ext b [])) = Suc (length (heap b)) \<and>
      heap (addText ext b []) ! length (heap b) =
        \<lparr>kind = RenderText [],
         style = inheritFrom ext (RenderStyle_create ext) (style (heap b ! cur)),
         parent = Some cur, children = []\<rparr> \<and>
      children (heap (addText ext b []) ! cur) = children (heap b ! cur) @ [length (heap b)] \<and>
      last (children (heap (addText ext b []) ! cur)) = length (heap b) \<and>
      m_currentRenderObject (addText ext b []) = Some cur"
    if "builder_inv b" "m_currentRenderObject b = Some cur"
  proof -
    from that have c: "cur < length (heap b)"
      by (simp add: builder_inv_iff)
    let ?n = "newObject (RenderText (fromUTF8 []))
                (inheritFrom ext (RenderStyle_create ext) (style (heap b ! cur)))"
    have b': "addText ext b [] = b\<lparr>heap := addChild cur (length (heap b)) (heap b @ [?n])\<rparr>"
      using that(2) by (simp add: addText_def Let_def)
    show ?thesis
      using that(2) c
      by (simp add: b' addChild_new_length addChild_new_last addChild_new_old newObject_def
          fromUTF8_def)
  qed
  ultimately show ?thesis
    by blast
qed

theorem addText_empty_creates_node_witness:
  "builder_inv (ParagraphBuilder_new sample_externals) \<and>
   m_currentRenderObject (ParagraphBuilder_new sample_externals) = Some 1 \<and>
   length (heap (addText sample_externals (ParagraphBuilder_new sample_externals) [])) = 3 \<and>
   kind (heap (addText sample_externals (ParagraphBuilder_new sample_externals) []) ! 2) =
     RenderText [] \<and>
   children (heap (addText sample_externals (ParagraphBuilder_new sample_externals) []) ! 1) = [2]"
proof -
  have h: "length (heap (ParagraphBuilder_new sample_externals)) = 2"
    "children (heap (ParagraphBuilder_new sample_externals) ! Suc 0) = []"
    by (simp_all add: builder_defs)
  from addText_empty_creates_node [of "ParagraphBuilder_new sample_externals" 1 sample_externals
      "[]", THEN conjunct1] builder_inv_new [of sample_externals] new_sample_cursor(1)
  show ?thesis
    by (simp add: h)
qed


section \<open>Font resync\<close>

lemma and_or_nonzero:
  "(x :: int32) AND (a OR b) \<noteq> 0 \<longleftrightarrow> x AND a \<noteq> 0 \<or> x AND b \<noteq> 0"
  by (simp add: bit.conj_disj_distrib or_eq_0_iff)

lemma tsFontMasks_iff:
  "msk AND tsFontMasks \<noteq> 0 \<longleftrightarrow>
     msk AND tsFontWeightMask \<noteq> 0 \<or> msk AND tsFontStyleMask \<noteq> 0 \<or>
     msk AND tsFontFamilyMask \<noteq> 0 \<or> msk AND tsFontSizeMask \<noteq> 0 \<or>
     msk AND tsLetterSpacingMask \<noteq> 0 \<or> msk AND tsWordSpacingMask \<noteq> 0"
  unfolding tsFontMasks_def and_or_nonzero by blast

lemma psFontMasks_iff:
  "msk AND psFontMasks \<noteq> 0 \<longleftrightarrow>
     msk AND psFontWeightMask \<noteq> 0 \<or> msk AND psFontStyleMask \<noteq> 0 \<or>
     msk AND psFontFamilyMask \<noteq> 0 \<or> msk AND psFontSizeMask \<noteq> 0"
  unfolding psFontMasks_def and_or_nonzero by blast

lemma pushStyle_span:
  assumes "builder_inv b" and "m_currentRenderObject b = Some cur"
    and "pushStyle ext b encoded fontFamily fontSize letterSpacing wordSpacing height = Inr b'"
  shows "\<exists>sl. pushStyle_resolve ext (encoded ! 0) encoded fontFamily fontSize letterSpacing
                wordSpacing height
                (inheritFrom ext (RenderStyle_create ext) (style (heap b ! cur)), calls b) = Inr sl \<and>
              style (heap b' ! length (heap b)) = fst sl \<and> calls b' = snd sl"
proof -
  from pushStyle_eq_Inr [OF assms(3)] assms(2) obtain sl where
    r: "pushStyle_resolve ext (encoded ! 0) encoded fontFamily fontSize letterSpacing
          wordSpacing height
          (inheritFrom ext (RenderStyle_create ext) (style (heap b ! cur)), calls b) = Inr sl"
    and b': "b' = b\<lparr>heap := addChild cur (length (heap b))
                             (heap b @ [newObject RenderInline (fst sl)]),
                   m_currentRenderObject := Some (length (heap b)),
                   calls := snd sl\<rparr>"
    by auto
  from assms(1,2) have c: "cur < length (heap b)"
    by (simp add: builder_inv_iff)
  have "style (heap b' ! length (heap b)) = fst sl"
    by (simp add: b' addChild_new_last [OF c] newObject_def)
  with r b' show ?thesis
    by simp
qed

lemma build_paragraph:
  assumes "builder_inv b"
    and "build ext b encoded fontFamily fontSize lineHeight_arg = Inr (r, b')"
    and "encoded ! 0 \<noteq> 0"
  shows "\<exists>sl. build_resolve ext (encoded ! 0) encoded fontFamily fontSize lineHeight_arg
                (style (heap b ! m_renderParagraph b), calls b) = Inr sl \<and>
              style (heap b' ! m_renderParagraph b) = fst sl \<and> calls b' = snd sl"
proof -
  from build_eq_Inr [OF assms(2)] assms(3) obtain sl where
    r: "build_resolve ext (encoded ! 0) encoded fontFamily fontSize lineHeight_arg
          (style (heap b ! m_renderParagraph b), calls b) = Inr sl"
    and b': "b' = b\<lparr>heap := RenderObject_setStyle (m_renderParagraph b) (fst sl) (heap b),
                   calls := snd sl,
                   m_currentRenderObject := None, m_renderView := None\<rparr>"
    by auto
  from assms(1) have "m_renderParagraph b < length (heap b)"
    unfolding builder_inv_iff by linarith
  then have "style (heap b' ! m_renderParagraph b) = fst sl"
    by (simp add: b' RenderObject_setStyle_nth)
  with r b' show ?thesis
    by simp
qed

text \<open>
  Claim C6. A \<^verbatim>\<open>pushStyle\<close> that returns and whose mask has at least one of the bits of
  font weight, font style, font family, font size, letter spacing and word spacing set
  rebuilds the font description once and resyncs the font once, however many of these
  bits are set: the calls it makes are \<^verbatim>\<open>applyTextDecorations\<close> when the decoration bit
  is set, then one \<^verbatim>\<open>setFontDescription\<close> and one font update, both with the description
  the new span has afterwards, and that description is the one the diff asks for, built
  from the description of the style before the font block. The same holds for a \<^verbatim>\<open>build\<close>
  whose mask has at least one of the bits of font weight, font style, font family and font
  size set (a paragraph style has no bits for letter and word spacing), with the
  description of the paragraph.
\<close>

theorem one_font_resync_per_call:
  "(builder_inv b \<and> m_currentRenderObject b = Some cur \<and>
    pushStyle ext b encoded fontFamily fontSize letterSpacing wordSpacing height = Inr b' \<and>
    (encoded ! 0 AND tsFontWeightMask \<noteq> 0 \<or> encoded ! 0 AND tsFontStyleMask \<noteq> 0 \<or>
     encoded ! 0 AND tsFontFamilyMask \<noteq> 0 \<or> encoded ! 0 AND tsFontSizeMask \<noteq> 0 \<or>
     encoded ! 0 AND tsLetterSpacingMask \<noteq> 0 \<or> encoded ! 0 AND tsWordSpacingMask \<noteq> 0) \<longrightarrow>
      (let inh = inheritFrom ext (RenderStyle_create ext) (style (heap b ! cur));
           s1 = (if encoded ! 0 AND tsColorMask \<noteq> 0
                 then setColor (getColorFromARGB (encoded ! tsColorIndex)) inh else inh);
           s2 = (if encoded ! 0 AND tsTextDecorationMask \<noteq> 0
                 then applyTextDecorations ext
                        (setTextDecoration (encoded ! tsTextDecorationIndex) s1)
                 else s1);
           fd = textFontOverrides ext (encoded ! 0) encoded fontFamily fontSize letterSpacing
                  wordSpacing (fontDescription s2)
       in fontDescription (style (heap b' ! length (heap b))) = fd \<and>
          calls b' = calls b
            @ (if encoded ! 0 AND tsTextDecorationMask \<noteq> 0 then [ApplyTextDecorations] else [])
            @ [SetFontDescription fd, FontUpdate fd] \<and>
          length (filter is_SetFontDescription (calls b')) =
            Suc (length (filter is_SetFontDescription (calls b))) \<and>
          length (filter is_FontUpdate (calls b')) =
            Suc (length (filter is_FontUpdate (calls b))))) \<and>
   (builder_inv b \<and>
    build ext b encoded2 fontFamily fontSize lineHeight_arg = Inr (r, b2) \<and>
    (encoded2 ! 0 AND psFontWeightMask \<noteq> 0 \<or> encoded2 ! 0 AND psFontStyleMask \<noteq> 0 \<or>
     encoded2 ! 0 AND psFontFamilyMask \<noteq> 0 \<or> encoded2 ! 0 AND psFontSizeMask \<noteq> 0) \<longrightarrow>
      (let fd = paragraphFontOverrides ext (encoded2 ! 0) encoded2 fontFamily fontSize
                  (fontDescription (style (heap b ! m_renderParagraph b)))
       in fontDescription (style (heap b2 ! m_renderParagraph b)) = fd \<and>
          calls b2 = calls b @ [SetFontDescription fd, FontUpdate fd] \<and>
          length (filter is_SetFontDescription (calls b2)) =
            Suc (length (filter is_SetFontDescription (calls b))) \<and>
          length (filter is_FontUpdate (calls b2)) =
            Suc (length (filter is_FontUpdate (calls b)))))"
proof -
  have p: "let inh = inheritFrom ext (RenderStyle_create ext) (style (heap b ! cur));
           s1 = (if encoded ! 0 AND tsColorMask \<noteq> 0
                 then setColor (getColorFromARGB (encoded ! tsColorIndex)) inh else inh);
           s2 = (if encoded ! 0 AND tsTextDecorationMask \<noteq> 0
                 then applyTextDecorations ext
                        (setTextDecoration (encoded ! tsTextDecorationIndex) s1)
                 else s1);
           fd = textFontOverrides ext (encoded ! 0) encoded fontFamily fontSize letterSpacing
                  wordSpacing (fontDescription s2)
       in fontDescription (style (heap b' ! length (heap b))) = fd \<and>
          calls b' = calls b
            @ (if encoded ! 0 AND tsTextDecorationMask \<noteq> 0 then [ApplyTextDecorations] else [])
            @ [SetFontDescription fd, FontUpdate fd] \<and>
          length (filter is_SetFontDescription (calls b')) =
            Suc (length (filter is_SetFontDescription (calls b))) \<and>
          length (filter is_FontUpdate (calls b')) =
            Suc (length (filter is_FontUpdate (calls b)))"
    if inv: "builder_inv b" and cur: "m_currentRenderObject b = Some cur"
      and ok: "pushStyle ext b encoded fontFamily fontSize letterSpacing wordSpacing height = Inr b'"
      and bits: "encoded ! 0 AND tsFontMasks \<noteq> 0"
  proof -
    from pushStyle_span [OF inv cur ok] obtain sl where
      r: "pushStyle_resolve ext (encoded ! 0) encoded fontFamily fontSize letterSpacing
            wordSpacing height
            (inheritFrom ext (RenderStyle_create ext) (style (heap b ! cur)), calls b) = Inr sl"
      and st: "style (heap b' ! length (heap b)) = fst sl" and lg: "calls b' = snd sl"
      by blast
    note f = pushStyle_resolve_font [OF r bits]
    have fd: "fontDescription (fst sl) =
        textFontOverrides ext (encoded ! 0) encoded fontFamily fontSize letterSpacing wordSpacing
          (fontDescription
            (if encoded ! 0 AND tsTextDecorationMask \<noteq> 0
             then applyTextDecorations ext
                    (setTextDecoration (encoded ! tsTextDecorationIndex)
                       (if encoded ! 0 AND tsColorMask \<noteq> 0
                        then setColor (getColorFromARGB (encoded ! tsColorIndex))
                               (inheritFrom ext (RenderStyle_create ext) (style (heap b ! cur)))
                        else inheritFrom ext (RenderStyle_create ext) (style (heap b ! cur))))
             else (if encoded ! 0 AND tsColorMask \<noteq> 0
                   then setColor (getColorFromARGB (encoded ! tsColorIndex))
                          (inheritFrom ext (RenderStyle_create ext) (style (heap b ! cur)))
                   else inheritFrom ext (RenderStyle_create ext) (style (heap b ! cur)))))"
      using f(1) by (simp add: setColor_def)
    have c: "calls b' = calls b
        @ (if encoded ! 0 AND tsTextDecorationMask \<noteq> 0 then [ApplyTextDecorations] else [])
        @ [SetFontDescription (fontDescription (fst sl)), FontUpdate (fontDescription (fst sl))]"
      using f(2) lg by simp
    have n: "length (filter is_SetFontDescription (calls b')) =
               Suc (length (filter is_SetFontDescription (calls b)))"
      "length (filter is_FontUpdate (calls b')) = Suc (length (filter is_FontUpdate (calls b)))"
      by (simp_all add: c)
    show ?thesis
      unfolding Let_def st fd [symmetric] using c n by simp
  qed
  have q: "let fd = paragraphFontOverrides ext (encoded2 ! 0) encoded2 fontFamily fontSize
                  (fontDescription (style (heap b ! m_renderParagraph b)))
       in fontDescription (style (heap b2 ! m_renderParagraph b)) = fd \<and>
          calls b2 = calls b @ [SetFontDescription fd, FontUpdate fd] \<and>
          length (filter is_SetFontDescription (calls b2)) =
            Suc (length (filter is_SetFontDescription (calls b))) \<and>
          length (filter is_FontUpdate (calls b2)) =
            Suc (length (filter is_FontUpdate (calls b)))"
    if inv: "builder_inv b"
      and ok: "build ext b encoded2 fontFamily fontSize lineHeight_arg = Inr (r, b2)"
      and bits: "encoded2 ! 0 AND psFontMasks \<noteq> 0"
  proof -
    from bits have "encoded2 ! 0 \<noteq> 0" by auto
    from build_paragraph [OF inv ok this] obtain sl where
      r: "build_resolve ext (encoded2 ! 0) encoded2 fontFamily fontSize lineHeight_arg
            (style (heap b ! m_renderParagraph b), calls b) = Inr sl"
      and st: "style (heap b2 ! m_renderParagraph b) = fst sl" and lg: "calls b2 = snd sl"
      by blast
    note f = build_resolve_font [OF r bits]
    have c: "calls b2 = calls b
        @ [SetFontDescription (fontDescription (fst sl)), FontUpdate (fontDescription (fst sl))]"
      using f(2) lg by simp
    have n: "length (filter is_SetFontDescription (calls b2)) =
               Suc (length (filter is_SetFontDescription (calls b)))"
      "length (filter is_FontUpdate (calls b2)) = Suc (length (filter is_FontUpdate (calls b)))"
      by (simp_all add: c)
    show ?thesis
      unfolding Let_def st f(1) [symmetric] using c n by simp
  qed
  from p q show ?thesis
    unfolding tsFontMasks_iff psFontMasks_iff by blast
qed

theorem one_font_resync_per_call_witness:
  "\<not> isl (pushStyle sample_externals (ParagraphBuilder_new sample_externals)
            [768, 0, 0, 0, 0, 0, 0] [] 20 1 0 0) \<and>
   fd_specifiedSize (fontDescription (style (heap (projr
       (pushStyle sample_externals (ParagraphBuilder_new sample_externals)
            [768, 0, 0, 0, 0, 0, 0] [] 20 1 0 0)) ! 2))) = 20 \<and>
   fd_letterSpacing (fontDescription (style (heap (projr
       (pushStyle sample_externals (ParagraphBuilder_new sample_externals)
            [768, 0, 0, 0, 0, 0, 0] [] 20 1 0 0)) ! 2))) = 1 \<and>
   length (filter is_FontUpdate (calls (projr
       (pushStyle sample_externals (ParagraphBuilder_new sample_externals)
            [768, 0, 0, 0, 0, 0, 0] [] 20 1 0 0)))) =
     Suc (length (filter is_FontUpdate (calls (ParagraphBuilder_new sample_externals)))) \<and>
   \<not> isl (build sample_externals (ParagraphBuilder_new sample_externals)
            [96, 0, 0, 0, 0] [] 20 0) \<and>
   fd_specifiedSize (fontDescription (style (heap (snd (projr
       (build sample_externals (ParagraphBuilder_new sample_externals)
            [96, 0, 0, 0, 0] [] 20 0))) ! 1))) = 20 \<and>
   length (filter is_FontUpdate (calls (snd (projr
       (build sample_externals (ParagraphBuilder_new sample_externals)
            [96, 0, 0, 0, 0] [] 20 0))))) =
     Suc (length (filter is_FontUpdate (calls (ParagraphBuilder_new sample_externals))))"
proof -
  let ?new = "ParagraphBuilder_new sample_externals"
  let ?p = "pushStyle sample_externals ?new [768, 0, 0, 0, 0, 0, 0] [] 20 1 0 0"
  let ?b = "build sample_externals ?new [96, 0, 0, 0, 0] [] 20 0"
  have "\<exists>b'. ?p = Inr b'"
    by (rule pushStyle_in_range [OF new_sample_cursor(1)]) simp_all
  then obtain b' where p: "?p = Inr b'" ..
  have "\<exists>r b2. ?b = Inr (r, b2)"
    by (rule build_in_range) simp_all
  then obtain r b2 where b: "?b = Inr (r, b2)" by blast
  have m: "[768, 0, 0, 0, 0, 0, 0] ! 0 AND tsFontSizeMask \<noteq> (0 :: int32)"
    "[96, 0, 0, 0, 0] ! 0 AND psFontSizeMask \<noteq> (0 :: int32)"
    "[768, 0, 0, 0, 0, 0, 0] ! 0 AND tsTextDecorationMask = (0 :: int32)"
    "[768, 0, 0, 0, 0, 0, 0] ! 0 AND tsColorMask = (0 :: int32)"
    by (simp_all add: mask_defs)
  have h: "length (heap ?new) = 2" "m_renderParagraph ?new = Suc 0"
    by (simp_all add: builder_defs)
  have t: "fd_specifiedSize (textFontOverrides sample_externals 768 enc [] 20 1 0 fd) = 20"
    "fd_letterSpacing (textFontOverrides sample_externals 768 enc [] 20 1 0 fd) = 1"
    "fd_specifiedSize (paragraphFontOverrides sample_externals 96 enc [] 20 fd) = 20"
    for enc fd
    by (simp_all add: textFontOverrides_def paragraphFontOverrides_def sample_externals_def
        bit_iff_and_push_bit_not_eq_0)
  from one_font_resync_per_call [of ?new 1 sample_externals "[768, 0, 0, 0, 0, 0, 0]" "[]" 20 1 0 0
      b' "[96, 0, 0, 0, 0]" 0 r b2] p b m builder_inv_new [of sample_externals]
    new_sample_cursor(1)
  show ?thesis
    by (simp add: Let_def h t)
qed

section \<open>Out-of-band parameters\<close>

lemma maskHas_Cons: "maskHas (msk # rest) m \<longleftrightarrow> msk AND m \<noteq> 0"
  by (simp add: maskHas_def)

lemma pushStyle_params:
  assumes "maskHas encoded tsFontFamilyMask \<longrightarrow> fontFamily = fontFamily'"
    and "maskHas encoded tsFontSizeMask \<longrightarrow> fontSize = fontSize'"
    and "maskHas encoded tsLetterSpacingMask \<longrightarrow> letterSpacing = letterSpacing'"
    and "maskHas encoded tsWordSpacingMask \<longrightarrow> wordSpacing = wordSpacing'"
    and "maskHas encoded tsHeightMask \<longrightarrow> height = height'"
  shows "pushStyle ext b encoded fontFamily fontSize letterSpacing wordSpacing height =
         pushStyle ext b encoded fontFamily' fontSize' letterSpacing' wordSpacing' height'"
proof (cases encoded)
  case Nil
  then show ?thesis
    by (cases "m_currentRenderObject b") (simp_all add: pushStyle_def rd_def andThen_Inl)
next
  case (Cons msk rest)
  with assms have "pushStyle_resolve ext msk encoded fontFamily fontSize letterSpacing
      wordSpacing height x =
    pushStyle_resolve ext msk encoded fontFamily' fontSize' letterSpacing' wordSpacing' height' x"
    for x
    by (intro pushStyle_resolve_params) (simp_all add: maskHas_Cons)
  with Cons show ?thesis
    by (cases "m_currentRenderObject b") (simp_all add: pushStyle_def rd_def andThen_Inr)
qed

lemma build_params:
  assumes "maskHas encoded psFontFamilyMask \<longrightarrow> fontFamily = fontFamily'"
    and "maskHas encoded psFontSizeMask \<longrightarrow> fontSize = fontSize'"
    and "maskHas encoded psLineHeightMask \<longrightarrow> lineHeight_arg = lineHeight_arg'"
  shows "build ext b encoded fontFamily fontSize lineHeight_arg =
         build ext b encoded fontFamily' fontSize' lineHeight_arg'"
proof (cases encoded)
  case Nil
  then show ?thesis
    by (simp add: build_def rd_def andThen_Inl)
next
  case (Cons msk rest)
  with assms have "build_resolve ext msk encoded fontFamily fontSize lineHeight_arg x =
    build_resolve ext msk encoded fontFamily' fontSize' lineHeight_arg' x"
    for x
    by (intro build_resolve_params) (simp_all add: maskHas_Cons)
  with Cons show ?thesis
    by (simp add: build_def rd_def andThen_Inr)
qed

text \<open>
  Claim C8. Two \<^verbatim>\<open>pushStyle\<close> calls on the same builder with the same record, whose
  font family, font size, letter spacing, word spacing and height agree wherever the bit
  of the parameter is set in the mask, give the same result; two \<^verbatim>\<open>build\<close> calls whose
  font family, font size and line height agree wherever the bit is set give the same
  result. A parameter whose bit is not set is ignored.
\<close>

theorem out_of_band_parameters_ignored:
  "((maskHas encoded tsFontFamilyMask \<longrightarrow> fontFamily = fontFamily') \<and>
    (maskHas encoded tsFontSizeMask \<longrightarrow> fontSize = fontSize') \<and>
    (maskHas encoded tsLetterSpacingMask \<longrightarrow> letterSpacing = letterSpacing') \<and>
    (maskHas encoded tsWordSpacingMask \<longrightarrow> wordSpacing = wordSpacing') \<and>
    (maskHas encoded tsHeightMask \<longrightarrow> height = height') \<longrightarrow>
      pushStyle ext b encoded fontFamily fontSize letterSpacing wordSpacing height =
      pushStyle ext b encoded fontFamily' fontSize' letterSpacing' wordSpacing' height') \<and>
   ((maskHas encoded2 psFontFamilyMask \<longrightarrow> fontFamily = fontFamily') \<and>
    (maskHas encoded2 psFontSizeMask \<longrightarrow> fontSize = fontSize') \<and>
    (maskHas encoded2 psLineHeightMask \<longrightarrow> lineHeight_arg = lineHeight_arg') \<longrightarrow>
      build ext b encoded2 fontFamily fontSize lineHeight_arg =
      build ext b encoded2 fontFamily' fontSize' lineHeight_arg')"
  using pushStyle_params [of encoded fontFamily fontFamily' fontSize fontSize' letterSpacing
      letterSpacing' wordSpacing wordSpacing' height height' ext b]
    build_params [of encoded2 fontFamily fontFamily' fontSize fontSize' lineHeight_arg
      lineHeight_arg' ext b]
  by blast

theorem out_of_band_parameters_ignored_witness:
  "pushStyle sample_externals (ParagraphBuilder_new sample_externals)
     [258, 0xFFFF0000, 0, 0, 0, 0, 0] ''serif'' 20 1 2 3 =
   pushStyle sample_externals (ParagraphBuilder_new sample_externals)
     [258, 0xFFFF0000, 0, 0, 0, 0, 0] ''mono'' 20 4 5 6 \<and>
   build sample_externals (ParagraphBuilder_new sample_externals) [2, 1, 0, 0, 0] ''serif'' 20 1 =
   build sample_externals (ParagraphBuilder_new sample_externals) [2, 1, 0, 0, 0] ''mono'' 20 3"
  using out_of_band_parameters_ignored [of "[258, 0xFFFF0000, 0, 0, 0, 0, 0]" "''serif''"
      "''mono''" 20 20 1 4 2 5 3 6 sample_externals "ParagraphBuilder_new sample_externals"
      "[2, 1, 0, 0, 0]" 1 3]
  by (simp add: maskHas_def mask_defs)


section \<open>Decorations\<close>

text \<open>
  Claim C9. When the mask of a \<^verbatim>\<open>pushStyle\<close> that returns does not have the text
  decoration bit, \<^verbatim>\<open>applyTextDecorations\<close> is not called and the style of the new span is
  the style it inherits with these fields only replaced, each only where its own bit is
  set: the color, the decoration color, the decoration style, the font description and
  the line height. So the decoration and the applied decorations are the inherited
  ones, and when no bit but those of the decoration color and the decoration style is
  set, these two fields are all that changes.
\<close>

theorem decoration_not_rederived:
  assumes "builder_inv b" and "m_currentRenderObject b = Some cur"
    and "pushStyle ext b encoded fontFamily fontSize letterSpacing wordSpacing height = Inr b'"
    and "encoded ! 0 AND tsTextDecorationMask = 0"
  shows "(let inh = inheritFrom ext (RenderStyle_create ext) (style (heap b ! cur));
              new = style (heap b' ! length (heap b))
          in new =
               inh\<lparr>color := (if encoded ! 0 AND tsColorMask \<noteq> 0
                              then getColorFromARGB (encoded ! tsColorIndex) else color inh),
                    textDecorationColor :=
                      (if encoded ! 0 AND tsTextDecorationColorMask \<noteq> 0
                       then StyleColor (getColorFromARGB (encoded ! tsTextDecorationColorIndex))
                       else textDecorationColor inh),
                    textDecorationStyle :=
                      (if encoded ! 0 AND tsTextDecorationStyleMask \<noteq> 0
                       then encoded ! tsTextDecorationStyleIndex else textDecorationStyle inh),
                    fontDescription :=
                      (if encoded ! 0 AND tsFontMasks \<noteq> 0
                       then textFontOverrides ext (encoded ! 0) encoded fontFamily fontSize
                              letterSpacing wordSpacing (fontDescription inh)
                       else fontDescription inh),
                    lineHeight :=
                      (if encoded ! 0 AND tsHeightMask \<noteq> 0
                       then Length_of (float_of ext (double_of ext (height * 100))) Percent
                       else lineHeight inh)\<rparr> \<and>
             (encoded ! 0 AND tsColorMask = 0 \<and> encoded ! 0 AND tsFontMasks = 0 \<and>
              encoded ! 0 AND tsHeightMask = 0 \<longrightarrow>
                new =
                  inh\<lparr>textDecorationColor :=
                         (if encoded ! 0 AND tsTextDecorationColorMask \<noteq> 0
                          then StyleColor
                                 (getColorFromARGB (encoded ! tsTextDecorationColorIndex))
                          else textDecorationColor inh),
                       textDecorationStyle :=
                         (if encoded ! 0 AND tsTextDecorationStyleMask \<noteq> 0
                          then encoded ! tsTextDecorationStyleIndex
                          else textDecorationStyle inh)\<rparr>) \<and>
             textDecoration new = textDecoration inh \<and>
             appliedTextDecorations new = appliedTextDecorations inh \<and>
             calls b' = calls b
               @ (if encoded ! 0 AND tsFontMasks \<noteq> 0
                  then [SetFontDescription (fontDescription new),
                        FontUpdate (fontDescription new)]
                  else []) \<and>
             count_list (calls b') ApplyTextDecorations =
               count_list (calls b) ApplyTextDecorations)"
proof -
  from pushStyle_span [OF assms(1-3)] obtain sl where
    r: "pushStyle_resolve ext (encoded ! 0) encoded fontFamily fontSize letterSpacing
          wordSpacing height
          (inheritFrom ext (RenderStyle_create ext) (style (heap b ! cur)), calls b) = Inr sl"
    and st: "style (heap b' ! length (heap b)) = fst sl" and lg: "calls b' = snd sl"
    by blast
  note f = pushStyle_resolve_frame [OF r assms(4)]
  have c: "calls b' = calls b
      @ (if encoded ! 0 AND tsFontMasks \<noteq> 0
         then [SetFontDescription (fontDescription (fst sl)), FontUpdate (fontDescription (fst sl))]
         else [])"
    using f(2) lg by simp
  then have n: "count_list (calls b') ApplyTextDecorations =
                count_list (calls b) ApplyTextDecorations"
    by simp
  have d: "textDecoration (fst sl) =
             textDecoration (inheritFrom ext (RenderStyle_create ext) (style (heap b ! cur)))"
    "appliedTextDecorations (fst sl) =
       appliedTextDecorations (inheritFrom ext (RenderStyle_create ext) (style (heap b ! cur)))"
    by (simp_all add: f(1))
  have z: "fst sl =
      (inheritFrom ext (RenderStyle_create ext) (style (heap b ! cur)))
        \<lparr>textDecorationColor :=
           (if encoded ! 0 AND tsTextDecorationColorMask \<noteq> 0
            then StyleColor (getColorFromARGB (encoded ! tsTextDecorationColorIndex))
            else textDecorationColor
                   (inheritFrom ext (RenderStyle_create ext) (style (heap b ! cur)))),
         textDecorationStyle :=
           (if encoded ! 0 AND tsTextDecorationStyleMask \<noteq> 0
            then encoded ! tsTextDecorationStyleIndex
            else textDecorationStyle
                   (inheritFrom ext (RenderStyle_create ext) (style (heap b ! cur))))\<rparr>"
    if "encoded ! 0 AND tsColorMask = 0" "encoded ! 0 AND tsFontMasks = 0"
      "encoded ! 0 AND tsHeightMask = 0"
    using that by (simp add: f(1))
  show ?thesis
    unfolding Let_def st using f(1) z d c n by blast
qed

theorem decoration_not_rederived_witness:
  "\<not> isl (pushStyle sample_externals (ParagraphBuilder_new sample_externals)
            [4, 0, 1, 0, 0, 0, 0] [] 0 0 0 0) \<and>
   \<not> isl (pushStyle sample_externals
            (projr (pushStyle sample_externals (ParagraphBuilder_new sample_externals)
                      [4, 0, 1, 0, 0, 0, 0] [] 0 0 0 0))
            [24, 0, 7, 0xFF00FF00, 2, 0, 0] [] 0 0 0 0) \<and>
   [24, 0, 7, 0xFF00FF00, 2, 0, 0] ! 0 AND tsTextDecorationMask = (0 :: int32) \<and>
   appliedTextDecorations (style (heap (projr (pushStyle sample_externals
            (projr (pushStyle sample_externals (ParagraphBuilder_new sample_externals)
                      [4, 0, 1, 0, 0, 0, 0] [] 0 0 0 0))
            [24, 0, 7, 0xFF00FF00, 2, 0, 0] [] 0 0 0 0)) ! 3)) = [(1, 0, CurrentColor)] \<and>
   textDecoration (style (heap (projr (pushStyle sample_externals
            (projr (pushStyle sample_externals (ParagraphBuilder_new sample_externals)
                      [4, 0, 1, 0, 0, 0, 0] [] 0 0 0 0))
            [24, 0, 7, 0xFF00FF00, 2, 0, 0] [] 0 0 0 0)) ! 3)) = 1 \<and>
   color (style (heap (projr (pushStyle sample_externals
            (projr (pushStyle sample_externals (ParagraphBuilder_new sample_externals)
                      [4, 0, 1, 0, 0, 0, 0] [] 0 0 0 0))
            [24, 0, 7, 0xFF00FF00, 2, 0, 0] [] 0 0 0 0)) ! 3)) = Color_rgba 0 0 0 255"
proof -
  let ?new = "ParagraphBuilder_new sample_externals"
  let ?p1 = "pushStyle sample_externals ?new [4, 0, 1, 0, 0, 0, 0] [] 0 0 0 0"
  have "\<exists>b1. ?p1 = Inr b1"
    by (rule pushStyle_in_range [OF new_sample_cursor(1)]) simp_all
  then obtain b1 where p1: "?p1 = Inr b1" ..
  have inv1: "builder_inv b1"
    using builder_inv_pushStyle [OF builder_inv_new p1] .
  have h: "length (heap ?new) = 2"
    by (simp add: builder_defs)
  from pushStyle_eq_Inr [OF p1]
  have "m_currentRenderObject b1 = Some (length (heap ?new)) \<and>
        length (heap b1) = Suc (length (heap ?new))"
    by (auto simp add: addChild_new_length)
  with h have cur1: "m_currentRenderObject b1 = Some 2" and l1: "length (heap b1) = 3"
    by simp_all
  let ?p2 = "pushStyle sample_externals b1 [24, 0, 7, 0xFF00FF00, 2, 0, 0] [] 0 0 0 0"
  have "\<exists>b2. ?p2 = Inr b2"
    by (rule pushStyle_in_range [OF cur1]) simp_all
  then obtain b2 where p2: "?p2 = Inr b2" ..
  have m: "[24, 0, 7, 0xFF00FF00, 2, 0, 0] ! 0 AND tsTextDecorationMask = (0 :: int32)"
    "[24, 0, 7, 0xFF00FF00, 2, 0, 0] ! 0 AND tsColorMask = (0 :: int32)"
    by (simp_all add: mask_defs)
  have e: "appliedTextDecorations (style (heap (projr ?p1) ! 2)) = [(1, 0, CurrentColor)]"
    "textDecoration (style (heap (projr ?p1) ! 2)) = 1"
    "color (style (heap (projr ?p1) ! 2)) = Color_rgba 0 0 0 255"
    by (simp_all add: builder_defs call_defs mask_defs setter_defs)
  have i: "inheritFrom sample_externals (RenderStyle_create sample_externals) x = x" for x
    by (simp add: sample_externals_def)
  from decoration_not_rederived [OF inv1 cur1 p2 m(1)] m e p1 p2 l1
  show ?thesis
    by (simp add: Let_def i)
qed

section \<open>Pushes and pops\<close>

lemma chain_parent:
  assumes "map parent h = None # map Some [0..<n]" and "i < length h"
  shows "parent (h ! i) = (if i = 0 then None else Some (i - 1))"
proof -
  from assms(1) have l: "length h = Suc n"
    by (metis length_Cons length_map length_upt diff_zero)
  from assms(2) have "parent (h ! i) = map parent h ! i"
    by simp
  also have "\<dots> = (if i = 0 then None else Some (i - 1))"
    using assms(2) l by (simp add: assms(1) nth_Cons')
  finally show ?thesis .
qed

lemma spine_new: "spine 0 (ParagraphBuilder_new ext)"
  by (simp add: spine_def ParagraphBuilder_new_def createRenderView_def
      createFontForDocument_def addChild_def newObject_def createRenderParagraph_def Let_def
      split: prod.splits)

lemma spine_pushStyle:
  assumes "spine n b" and "length encoded = 7"
  shows "\<exists>b'. pushStyle ext b encoded fontFamily fontSize letterSpacing wordSpacing height = Inr b'
           \<and> spine (Suc n) b'"
proof -
  from assms(1) have cur: "m_currentRenderObject b = Some (Suc n)"
    and par: "map parent (heap b) = None # map Some [0..<Suc n]"
    by (simp_all add: spine_def)
  from par have l: "length (heap b) = Suc (Suc n)"
    by (metis length_Cons length_map length_upt diff_zero)
  from assms(2) have "7 \<le> length encoded" "dcheck_is_on ext \<longrightarrow> length encoded = 7"
    by simp_all
  from pushStyle_in_range [OF cur this] obtain b' where
    ok: "pushStyle ext b encoded fontFamily fontSize letterSpacing wordSpacing height = Inr b'"
    by blast
  from pushStyle_eq_Inr [OF ok] cur obtain sl where
    b': "b' = b\<lparr>heap := addChild (Suc n) (length (heap b))
                             (heap b @ [newObject RenderInline (fst sl)]),
                   m_currentRenderObject := Some (length (heap b)),
                   calls := snd sl\<rparr>"
    by auto
  have c: "Suc n < length (heap b)"
    using l by simp
  have "map parent (heap b') = map parent (heap b) @ [Some (Suc n)]"
  proof (rule nth_equalityI)
    show "length (map parent (heap b')) = length (map parent (heap b) @ [Some (Suc n)])"
      by (simp add: b' addChild_new_length)
  next
    fix i assume "i < length (map parent (heap b'))"
    then have i: "i < Suc (length (heap b))"
      by (simp add: b' addChild_new_length)
    show "map parent (heap b') ! i = (map parent (heap b) @ [Some (Suc n)]) ! i"
    proof (cases "i < length (heap b)")
      case True
      with c show ?thesis
        by (simp add: b' addChild_new_length addChild_new_old nth_append)
    next
      case False
      with i have "i = length (heap b)" by simp
      with c show ?thesis
        by (simp add: b' addChild_new_length addChild_new_last nth_append newObject_def)
    qed
  qed
  with par have "map parent (heap b') = None # map Some [0..<Suc (Suc n)]"
    by simp
  with assms(1) l ok show ?thesis
    by (simp add: spine_def b')
qed

lemma spine_pushStyles:
  assumes "spine n b" and "\<forall>a \<in> set as. length (fst a) = 7"
  shows "\<exists>b'. pushStyles ext as b = Inr b' \<and> spine (n + length as) b'"
  using assms
proof (induction as arbitrary: n b)
  case Nil
  then show ?case by simp
next
  case (Cons a as)
  obtain encoded fontFamily fontSize letterSpacing wordSpacing height where
    a: "a = (encoded, fontFamily, fontSize, letterSpacing, wordSpacing, height)"
    by (cases a)
  with Cons.prems(2) have "length encoded = 7" by simp
  from spine_pushStyle [OF Cons.prems(1) this] obtain b1 where
    b1: "pushStyle ext b encoded fontFamily fontSize letterSpacing wordSpacing height = Inr b1"
    and s1: "spine (Suc n) b1"
    by blast
  from Cons.prems(2) have "\<forall>a \<in> set as. length (fst a) = 7" by simp
  from Cons.IH [OF s1 this] obtain b' where
    "pushStyles ext as b1 = Inr b'" "spine (Suc n + length as) b'"
    by blast
  with a b1 show ?case
    by (simp add: andThen_Inr)
qed

lemma pops_null: "m_currentRenderObject b = None \<Longrightarrow> pops k b = b"
  by (induction k) (simp_all add: pop_def)

lemma pops_chain:
  assumes "map parent (heap b) = None # map Some [0..<n]"
    and "m_currentRenderObject b = Some j" and "j < length (heap b)"
  shows "pops k b = b\<lparr>m_currentRenderObject := (if k \<le> j then Some (j - k) else None)\<rparr>"
  using assms
proof (induction k arbitrary: b j)
  case 0
  then show ?case by simp
next
  case (Suc k)
  have p: "pop b = b\<lparr>m_currentRenderObject := (if j = 0 then None else Some (j - 1))\<rparr>"
    using Suc.prems(2) chain_parent [OF Suc.prems(1,3)] by (simp add: pop_def)
  show ?case
  proof (cases "j = 0")
    case True
    with p have "m_currentRenderObject (pop b) = None" by simp
    from pops_null [OF this] p True show ?thesis by simp
  next
    case False
    let ?b1 = "b\<lparr>m_currentRenderObject := Some (j - 1)\<rparr>"
    from False p have p1: "pop b = ?b1" by simp
    have "pops k ?b1 =
          ?b1\<lparr>m_currentRenderObject := (if k \<le> j - 1 then Some (j - 1 - k) else None)\<rparr>"
      using Suc.prems False by (intro Suc.IH) simp_all
    with False p1 show ?thesis
      by (auto simp add: Suc_le_eq)
  qed
qed

lemma depthBelow_chain:
  assumes "map parent h = None # map Some [0..<n]"
    and "1 \<le> j" and "j < length h" and "j - 1 \<le> fuel"
  shows "depthBelow fuel h 1 j = Some (j - 1)"
  using assms(2-4)
proof (induction fuel arbitrary: j)
  case 0
  then show ?case by simp
next
  case (Suc fuel)
  show ?case
  proof (cases "j = 1")
    case True
    then show ?thesis by simp
  next
    case False
    with Suc.prems have j: "1 \<le> j - 1" "j - 1 < length h" "j - 1 - 1 \<le> fuel"
      by simp_all
    from chain_parent [OF assms(1) Suc.prems(2)] Suc.prems(1)
    have "parent (h ! j) = Some (j - 1)" by simp
    with False Suc.IH [OF j] j(1) show ?thesis
      by simp
  qed
qed


text \<open>
  Claim C5, as the code has it. On a new builder, \<open>n\<close> calls of \<^verbatim>\<open>pushStyle\<close> with
  records of 7 slots all return; after \<open>m \<le> n\<close> pops the cursor is not null and is
  \<open>n - m\<close> parent links below the paragraph. From there \<open>n - m\<close> more pops leave the
  cursor at the paragraph, \<open>n - m + 1\<close> at the view, and \<open>n - m + 2\<close> leave it null.
\<close>

theorem pushes_then_pops_depth:
  assumes "\<forall>a \<in> set as. length (fst a) = 7" and "m \<le> length as"
  shows "\<exists>b c. pushStyles ext as (ParagraphBuilder_new ext) = Inr b \<and>
           m_currentRenderObject (pops m b) = Some c \<and>
           depthBelow (length (heap (pops m b))) (heap (pops m b)) (m_renderParagraph b) c =
             Some (length as - m) \<and>
           m_currentRenderObject (pops (length as - m) (pops m b)) = Some (m_renderParagraph b) \<and>
           m_currentRenderObject (pops (length as - m + 1) (pops m b)) = m_renderView b \<and>
           m_renderView b \<noteq> None \<and>
           m_currentRenderObject (pops (length as - m + 2) (pops m b)) = None"
proof -
  let ?n = "length as"
  from spine_pushStyles [OF spine_new assms(1)] obtain b where
    ok: "pushStyles ext as (ParagraphBuilder_new ext) = Inr b" and sp: "spine ?n b"
    by auto
  from sp have par: "map parent (heap b) = None # map Some [0..<Suc ?n]"
    and cur: "m_currentRenderObject b = Some (Suc ?n)"
    and para: "m_renderParagraph b = 1" and view: "m_renderView b = Some 0"
    by (simp_all add: spine_def)
  from par have l: "length (heap b) = Suc (Suc ?n)"
    by (metis length_Cons length_map length_upt diff_zero)
  let ?b1 = "b\<lparr>m_currentRenderObject := Some (Suc ?n - m)\<rparr>"
  have b1: "pops m b = ?b1"
    using pops_chain [where n = "Suc ?n", OF par cur, of m] l assms(2) by simp
  have pk: "pops k ?b1 =
            ?b1\<lparr>m_currentRenderObject := (if k \<le> Suc ?n - m then Some (Suc ?n - m - k) else None)\<rparr>"
    for k
  proof (rule pops_chain [where n = "Suc ?n"])
    show "map parent (heap ?b1) = None # map Some [0..<Suc ?n]"
      using par by simp
    show "m_currentRenderObject ?b1 = Some (Suc ?n - m)"
      by simp
    show "Suc ?n - m < length (heap ?b1)"
      using l by simp
  qed
  have d: "depthBelow (length (heap b)) (heap b) 1 (Suc ?n - m) = Some (Suc ?n - m - 1)"
  proof (rule depthBelow_chain [where n = "Suc ?n"])
    show "map parent (heap b) = None # map Some [0..<Suc ?n]"
      by (rule par)
    show "1 \<le> Suc ?n - m"
      using assms(2) by simp
    show "Suc ?n - m < length (heap b)"
      using l by simp
    show "Suc ?n - m - 1 \<le> length (heap b)"
      using l by simp
  qed
  have "m_currentRenderObject (pops m b) = Some (Suc ?n - m)"
    by (simp add: b1)
  moreover have "depthBelow (length (heap (pops m b))) (heap (pops m b)) (m_renderParagraph b)
      (Suc ?n - m) = Some (?n - m)"
    using d assms(2) by (simp add: b1 para)
  moreover have "m_currentRenderObject (pops (?n - m) (pops m b)) = Some (m_renderParagraph b)"
    using assms(2) by (simp add: b1 pk para)
  moreover have "m_currentRenderObject (pops (?n - m + 1) (pops m b)) = m_renderView b"
    using assms(2) by (simp add: b1 pk view)
  moreover have "m_currentRenderObject (pops (?n - m + 2) (pops m b)) = None"
    using assms(2) by (simp add: b1 pk)
  ultimately show ?thesis
    using ok view by blast
qed

theorem pushes_then_pops_depth_witness:
  "\<exists>b c. pushStyles sample_externals
            [([0, 0, 0, 0, 0, 0, 0], [], 0, 0, 0, 0), ([2, 0xFFFF0000, 0, 0, 0, 0, 0], [], 0, 0, 0, 0)]
            (ParagraphBuilder_new sample_externals) = Inr b \<and>
         m_currentRenderObject (pops 1 b) = Some c \<and>
         depthBelow (length (heap (pops 1 b))) (heap (pops 1 b)) (m_renderParagraph b) c = Some 1 \<and>
         m_currentRenderObject (pops 1 (pops 1 b)) = Some (m_renderParagraph b) \<and>
         m_currentRenderObject (pops 3 (pops 1 b)) = None"
  using pushes_then_pops_depth [of
      "[([0, 0, 0, 0, 0, 0, 0], [], 0, 0, 0, 0), ([2, 0xFFFF0000, 0, 0, 0, 0, 0], [], 0, 0, 0, 0)]"
      1 sample_externals]
  by (simp add: numeral_3_eq_3) blast

text \<open>
  After one \<^verbatim>\<open>pushStyle\<close> and no pop, one more pop leaves the cursor at the paragraph,
  not null.
\<close>

theorem pops_to_top_span_counterexample:
  "\<not> isl (pushStyles sample_externals [([0, 0, 0, 0, 0, 0, 0], [], 0, 0, 0, 0)]
            (ParagraphBuilder_new sample_externals)) \<and>
   m_currentRenderObject (pops (1 - 0) (pops 0 (projr
     (pushStyles sample_externals [([0, 0, 0, 0, 0, 0, 0], [], 0, 0, 0, 0)]
        (ParagraphBuilder_new sample_externals))))) = Some 1 \<and>
   m_currentRenderObject (pops (1 - 0) (pops 0 (projr
     (pushStyles sample_externals [([0, 0, 0, 0, 0, 0, 0], [], 0, 0, 0, 0)]
        (ParagraphBuilder_new sample_externals))))) \<noteq> None"
  by (simp add: builder_defs call_defs mask_defs)

end
